theory Spec2Isabelle
  imports Main
begin

section \<open>Text helpers: the Go string functions and the line view of a file\<close>

text \<open>
  The remote peer registry is the text file \<^verbatim>\<open>/etc/wireguard/wg0.conf\<close>. A file content is
  a \<open>string\<close> (a list of bytes); the registry holds ASCII text.
\<close>

definition nl :: char where
  "nl = CHR 0x0A"

text \<open>\<^verbatim>\<open>strings.Split(s, sep)\<close> for a one-byte separator: always at least one piece.\<close>

fun split_on :: "char \<Rightarrow> string \<Rightarrow> string list" where
  "split_on c [] = [[]]"
| "split_on c (x # xs) =
     (if x = c then [] # split_on c xs
      else (case split_on c xs of
              p # ps \<Rightarrow> (x # p) # ps
            | [] \<Rightarrow> [[x]]))"

text \<open>
  The lines \<^verbatim>\<open>grep\<close> and \<^verbatim>\<open>sed\<close> see in a file: the pieces between newlines, where a final
  newline ends the last line instead of starting an empty one.
\<close>

definition file_lines :: "string \<Rightarrow> string list" where
  "file_lines text =
     (let ps = split_on nl text in if last ps = [] then butlast ps else ps)"

text \<open>What \<^verbatim>\<open>grep\<close> prints: every line followed by a newline.\<close>

definition unlines :: "string list \<Rightarrow> string" where
  "unlines ls = concat (map (\<lambda>l. l @ [nl]) ls)"

text \<open>\<^verbatim>\<open>strings.Join(pieces, "\n")\<close>.\<close>

fun join_nl :: "string list \<Rightarrow> string" where
  "join_nl [] = []"
| "join_nl [p] = p"
| "join_nl (p # q # ps) = p @ nl # join_nl (q # ps)"

text \<open>\<^verbatim>\<open>strings.HasPrefix(s, p)\<close>, written \<open>has_prefix p s\<close>.\<close>

fun has_prefix :: "string \<Rightarrow> string \<Rightarrow> bool" where
  "has_prefix [] s = True"
| "has_prefix (p # ps) [] = False"
| "has_prefix (p # ps) (c # cs) = (p = c \<and> has_prefix ps cs)"

text \<open>\<^verbatim>\<open>strings.Contains(s, p)\<close>, written \<open>contains p s\<close>; also a \<^verbatim>\<open>grep\<close> match of a line
  against a pattern without special characters.\<close>

fun contains :: "string \<Rightarrow> string \<Rightarrow> bool" where
  "contains p [] = (p = [])"
| "contains p (c # cs) = (has_prefix p (c # cs) \<or> contains p cs)"

text \<open>\<^verbatim>\<open>strings.TrimSuffix(s, suf)\<close>.\<close>

definition trim_suffix :: "string \<Rightarrow> string \<Rightarrow> string" where
  "trim_suffix s suf =
     (if has_prefix (rev suf) (rev s) then take (length s - length suf) s else s)"

text \<open>\<^verbatim>\<open>unicode.IsSpace\<close> on ASCII: tab, newline, vertical tab, form feed, carriage return,
  space.\<close>

definition is_space :: "char \<Rightarrow> bool" where
  "is_space c = (c = CHR 0x09 \<or> c = CHR 0x0A \<or> c = CHR 0x0B \<or> c = CHR 0x0C
                 \<or> c = CHR 0x0D \<or> c = CHR '' '')"

text \<open>\<^verbatim>\<open>strings.TrimSpace\<close>.\<close>

definition trim_space :: "string \<Rightarrow> string" where
  "trim_space s = rev (dropWhile is_space (rev (dropWhile is_space s)))"

subsection \<open>Decimal integers: \<^verbatim>\<open>strconv.Atoi\<close> and \<^verbatim>\<open>%d\<close>\<close>

text \<open>The value of a decimal digit, \<open>None\<close> for any other byte.\<close>

definition digit_of :: "char \<Rightarrow> int option" where
  "digit_of c = map_of (zip ''0123456789'' [0, 1, 2, 3, 4, 5, 6, 7, 8, 9]) c"

text \<open>The digits of a string, most significant first, added to an accumulator; \<open>None\<close> at
  the first byte that is not a digit.\<close>

fun parse_digits :: "int \<Rightarrow> string \<Rightarrow> int option" where
  "parse_digits acc [] = Some acc"
| "parse_digits acc (c # cs) =
     (case digit_of c of
        None \<Rightarrow> None
      | Some d \<Rightarrow> parse_digits (acc * 10 + d) cs)"

definition int64_min :: int where
  "int64_min = - 9223372036854775808"

definition int64_max :: int where
  "int64_max = 9223372036854775807"

text \<open>
  \<^verbatim>\<open>strconv.Atoi\<close> on a 64-bit platform: an optional sign, then at least one decimal digit and
  nothing else; a value outside the range of \<^verbatim>\<open>int\<close> is an error. \<open>None\<close> is the error.
\<close>

definition Atoi :: "string \<Rightarrow> int option" where
  "Atoi s =
     (let (neg, ds) = (case s of
                         c # cs \<Rightarrow> if c = CHR ''-'' then (True, cs)
                                   else if c = CHR ''+'' then (False, cs)
                                   else (False, s)
                       | [] \<Rightarrow> (False, s))
      in if ds = [] then None
         else (case parse_digits 0 ds of
                 None \<Rightarrow> None
               | Some n \<Rightarrow>
                   (let v = (if neg then - n else n)
                    in if int64_min \<le> v \<and> v \<le> int64_max then Some v else None)))"

definition digit_char :: "nat \<Rightarrow> char" where
  "digit_char d = ''0123456789'' ! d"

fun nat_digits :: "nat \<Rightarrow> string" where
  "nat_digits n =
     (if n < 10 then [digit_char n] else nat_digits (n div 10) @ [digit_char (n mod 10)])"

declare nat_digits.simps [simp del]

text \<open>\<^verbatim>\<open>fmt.Sprintf("%d", n)\<close>.\<close>

definition itoa :: "int \<Rightarrow> string" where
  "itoa n = (if n < 0 then CHR ''-'' # nat_digits (nat (- n)) else nat_digits (nat n))"

text \<open>Go's \<^verbatim>\<open>int\<close> addition wraps around in 64 bits.\<close>

definition wrap64 :: "int \<Rightarrow> int" where
  "wrap64 x = (x + 9223372036854775808) mod 18446744073709551616 - 9223372036854775808"

section \<open>The remote host and the commands run on it\<close>

datatype error =
    EmptyConfigPath
  | InvalidClientName
  | ConnectFailed
  | SessionFailed
  | CommandFailed
  | ParseFailed
  | KeyGenFailed
  | ServerInfoFailed
  | LocalWriteFailed
  | DbFailed
  | SendFailed

definition wg0_conf :: string where
  "wg0_conf = ''/etc/wireguard/wg0.conf''"

definition wg0_tmp :: string where
  "wg0_tmp = ''/tmp/wg0.conf.tmp''"

text \<open>
  One substitution of a \<^verbatim>\<open>sed\<close> script: \<^verbatim>\<open>s/^A$/B/g\<close> replaces a line that is exactly \<open>A\<close>,
  \<^verbatim>\<open>s/^A/B/g\<close> replaces the prefix \<open>A\<close> of a line. The patterns are taken literally: the
  client names the bot generates are \<^verbatim>\<open>user_<id>\<close>, free of characters special to \<^verbatim>\<open>sed\<close>,
  \<^verbatim>\<open>grep\<close> or the shell.
\<close>

datatype sed_cmd =
    Subst_line string string
  | Subst_prefix string string

fun sed_subst :: "sed_cmd \<Rightarrow> string \<Rightarrow> string" where
  "sed_subst (Subst_line a b) l = (if l = a then b else l)"
| "sed_subst (Subst_prefix a b) l = (if has_prefix a l then b @ drop (length a) l else l)"

text \<open>The substitutions of a script run one after the other on each line.\<close>

definition sed_line :: "sed_cmd list \<Rightarrow> string \<Rightarrow> string" where
  "sed_line script l = fold sed_subst script l"

text \<open>\<^verbatim>\<open>sed\<close> rewrites every line; a last line without a newline stays without one.\<close>

definition sed_text :: "sed_cmd list \<Rightarrow> string \<Rightarrow> string" where
  "sed_text script t =
     (if t \<noteq> [] \<and> last t \<noteq> nl then join_nl (map (sed_line script) (file_lines t))
      else unlines (map (sed_line script) (file_lines t)))"

text \<open>
  \<^verbatim>\<open>grep -v -A n pat\<close> on the lines of its input: a line without the pattern is selected and
  printed, a line with the pattern is printed as trailing context when it is among the \<open>n\<close>
  lines after a selected one, and \<^verbatim>\<open>--\<close> separates groups that are not adjacent. The
  arguments after the pattern are the context lines left, whether anything was printed,
  and whether a line was skipped since.
\<close>

fun grep_v_A :: "nat \<Rightarrow> string \<Rightarrow> nat \<Rightarrow> bool \<Rightarrow> bool \<Rightarrow> string list \<Rightarrow> string list" where
  "grep_v_A n pat r printed gap [] = []"
| "grep_v_A n pat r printed gap (l # ls) =
     (if \<not> contains pat l
      then (if printed \<and> gap then [''--''] else []) @ l # grep_v_A n pat n True False ls
      else if 0 < r then l # grep_v_A n pat (r - 1) printed gap ls
      else grep_v_A n pat 0 printed True ls)"

text \<open>The shell commands the code passes to \<^verbatim>\<open>executeCommand\<close>:
  \<^item> \<open>Sed_in_place script f\<close>: \<^verbatim>\<open>sed -i 'script' f\<close>;
  \<^item> \<open>Echo_append s f\<close>: \<^verbatim>\<open>echo 's' >> f\<close>;
  \<^item> \<open>Grep pat f\<close>: \<^verbatim>\<open>grep pat f\<close>;
  \<^item> \<open>Grep_count_or_zero pat f\<close>: \<^verbatim>\<open>grep -c "pat" f || echo "0"\<close>;
  \<^item> \<open>Grep_v_tmp_mv pat f tmp\<close>: \<^verbatim>\<open>grep -v 'pat' f | grep -v -A2 'pat' > tmp && mv tmp f\<close>;
  \<^item> \<open>Restart_wireguard\<close>: \<^verbatim>\<open>systemctl restart wg-quick@wg0\<close>.\<close>

datatype command =
    Sed_in_place "sed_cmd list" string
  | Echo_append string string
  | Grep string string
  | Grep_count_or_zero string string
  | Grep_v_tmp_mv string string string
  | Restart_wireguard

text \<open>
  The state of one remote host, as far as the provisioning code observes it:
  \<^item> \<open>reachable\<close>: whether \<^verbatim>\<open>connectToServer\<close> succeeds;
  \<^item> \<open>session_ok\<close>: whether \<^verbatim>\<open>client.NewSession()\<close> succeeds for a command;
  \<^item> \<open>files\<close>: the remote files by path;
  \<^item> \<open>restart_ok\<close>: whether \<^verbatim>\<open>systemctl restart wg-quick@wg0\<close> exits with 0;
  \<^item> \<open>client_keys\<close>: what \<^verbatim>\<open>generateClientKeys\<close> returns, the private and the public key
    (\<open>None\<close>: it fails);
  \<^item> \<open>server_info\<close>: what \<^verbatim>\<open>getServerInfo\<close> returns (\<open>None\<close>: it fails).
\<close>

record server_info =
  ServerPublicKey :: string
  ServerPublicIP :: string
  ServerPort :: string

record host =
  reachable :: bool
  session_ok :: "command \<Rightarrow> bool"
  files :: "string \<Rightarrow> string option"
  restart_ok :: bool
  client_keys :: "(string \<times> string) option"
  server_info :: "server_info option"

text \<open>
  The operations on files that commands perform: \<^verbatim>\<open>>> f\<close> appends a text to \<open>f\<close> where it is
  (creating it when absent), \<^verbatim>\<open>> f\<close> writes \<open>f\<close> anew, and \<^verbatim>\<open>mv a b\<close> replaces \<open>b\<close> by the
  file \<open>a\<close>, which is gone afterwards.
\<close>

datatype fs_op =
    Append_to string string
  | Write_to string string
  | Move string string

fun apply_op :: "fs_op \<Rightarrow> (string \<Rightarrow> string option) \<Rightarrow> (string \<Rightarrow> string option)" where
  "apply_op (Append_to f s) fs = fs(f \<mapsto> (case fs f of None \<Rightarrow> s | Some t \<Rightarrow> t @ s))"
| "apply_op (Write_to f s) fs = fs(f \<mapsto> s)"
| "apply_op (Move a b) fs = (case fs a of None \<Rightarrow> fs | Some t \<Rightarrow> (fs(a := None))(b \<mapsto> t))"

text \<open>
  \<^verbatim>\<open>sed -i\<close> writes its output to a temporary file that it creates beside the file it is
  given, and then renames that file over the original. \<open>sed_tmp f\<close> stands for the fresh
  name \<^verbatim>\<open>sed\<close> draws in the directory of \<open>f\<close>.
\<close>

definition sed_tmp :: "string \<Rightarrow> string" where
  "sed_tmp f = rev (dropWhile (\<lambda>c. c \<noteq> CHR ''/'') (rev f)) @ ''sedXXXXXX''"

text \<open>
  What a command does once its session runs: the standard output of the command, or an
  error when its exit status is not zero, and the operations it performs on files, in
  their order.
  \<^item> \<^verbatim>\<open>grep\<close> exits with 1 when it selects no line and with 2 when it cannot read the file;
    \<^verbatim>\<open>grep -c\<close> prints the count, also when it is 0 and the exit status is 1, so that
    \<^verbatim>\<open>|| echo "0"\<close> then prints a second line.
  \<^item> The status of a pipeline is the status of its last command; the redirection creates
    the temporary file before \<^verbatim>\<open>&&\<close> decides whether \<^verbatim>\<open>mv\<close> runs.
\<close>

fun command_effect :: "host \<Rightarrow> command \<Rightarrow> (error + string) \<times> fs_op list" where
  "command_effect h (Sed_in_place script f) =
     (case files h f of
        None \<Rightarrow> (Inl CommandFailed, [])
      | Some t \<Rightarrow> (Inr [], [Write_to (sed_tmp f) (sed_text script t), Move (sed_tmp f) f]))"
| "command_effect h (Echo_append s f) = (Inr [], [Append_to f (s @ [nl])])"
| "command_effect h (Grep pat f) =
     (case files h f of
        None \<Rightarrow> (Inl CommandFailed, [])
      | Some t \<Rightarrow>
          (let ms = filter (contains pat) (file_lines t)
           in if ms = [] then (Inl CommandFailed, []) else (Inr (unlines ms), [])))"
| "command_effect h (Grep_count_or_zero pat f) =
     (case files h f of
        None \<Rightarrow> (Inr (''0'' @ [nl]), [])
      | Some t \<Rightarrow>
          (let n = length (filter (contains pat) (file_lines t))
           in if n = 0 then (Inr (''0'' @ [nl] @ ''0'' @ [nl]), [])
              else (Inr (itoa (int n) @ [nl]), [])))"
| "command_effect h (Grep_v_tmp_mv pat f tmp) =
     (case files h f of
        None \<Rightarrow> (Inl CommandFailed, [Write_to tmp []])
      | Some t \<Rightarrow>
          (let kept = filter (\<lambda>l. \<not> contains pat l) (file_lines t);
               out = grep_v_A 2 pat 0 False False kept
           in if filter (\<lambda>l. \<not> contains pat l) kept \<noteq> []
              then (Inr [], [Write_to tmp (unlines out), Move tmp f])
              else (Inl CommandFailed, [Write_to tmp (unlines out)])))"
| "command_effect h Restart_wireguard =
     (if restart_ok h then (Inr [], []) else (Inl CommandFailed, []))"

text \<open>The host after a command: its files after the operations of the command, one after
  the other.\<close>

definition run_command :: "host \<Rightarrow> command \<Rightarrow> (error + string) \<times> host" where
  "run_command h c =
     (case command_effect h c of
        (r, ops) \<Rightarrow> (r, h\<lparr>files := fold apply_op ops (files h)\<rparr>))"

text \<open>\<^verbatim>\<open>executeCommand\<close>: a session that cannot be created is an error before anything runs.\<close>

definition executeCommand :: "host \<Rightarrow> command \<Rightarrow> (error + string) \<times> host" where
  "executeCommand h c = (if session_ok h c then run_command h c else (Inl SessionFailed, h))"

text \<open>The operations on files that a call of \<^verbatim>\<open>executeCommand\<close> performs.\<close>

definition command_ops :: "host \<Rightarrow> command \<Rightarrow> fs_op list" where
  "command_ops h c = (if session_ok h c then snd (command_effect h c) else [])"

section \<open>The provisioning operations on the peer registry\<close>

text \<open>
  The client name of a configuration path: \<^verbatim>\<open>filepath.Split\<close> keeps what follows the last
  \<^verbatim>\<open>/\<close>, \<^verbatim>\<open>strings.TrimSuffix\<close> drops a final \<^verbatim>\<open>.conf\<close>.
\<close>

definition client_name :: "string \<Rightarrow> string" where
  "client_name configFilePath =
     trim_suffix (rev (takeWhile (\<lambda>c. c \<noteq> CHR ''/'') (rev configFilePath))) ''.conf''"

definition restartWireguard :: "host \<Rightarrow> error option \<times> host" where
  "restartWireguard h =
     (case executeCommand h Restart_wireguard of
        (Inl e, h') \<Rightarrow> (Some e, h')
      | (Inr out, h') \<Rightarrow> (None, h'))"

definition block_cmd :: "string \<Rightarrow> command" where
  "block_cmd clientName =
     Sed_in_place
       [Subst_line (''# '' @ clientName) (''#BLOCKED '' @ clientName),
        Subst_prefix ''[Peer]'' ''#[Peer]'',
        Subst_prefix ''PublicKey'' ''#PublicKey'',
        Subst_prefix ''AllowedIPs'' ''#AllowedIPs'']
       wg0_conf"

definition BlockClient :: "host \<Rightarrow> string \<Rightarrow> error option \<times> host" where
  "BlockClient h configFilePath =
     (if configFilePath = [] then (Some EmptyConfigPath, h)
      else let clientName = client_name configFilePath
           in if clientName = [] then (Some InvalidClientName, h)
              else if \<not> reachable h then (Some ConnectFailed, h)
              else (case executeCommand h (block_cmd clientName) of
                      (Inl e, h') \<Rightarrow> (Some e, h')
                    | (Inr out, h') \<Rightarrow> restartWireguard h'))"

definition unblock_cmd :: "string \<Rightarrow> command" where
  "unblock_cmd clientName =
     Sed_in_place
       [Subst_line (''#BLOCKED '' @ clientName) (''# '' @ clientName),
        Subst_prefix ''#[Peer]'' ''[Peer]'',
        Subst_prefix ''#PublicKey'' ''PublicKey'',
        Subst_prefix ''#AllowedIPs'' ''AllowedIPs'']
       wg0_conf"

definition UnblockClient :: "host \<Rightarrow> string \<Rightarrow> error option \<times> host" where
  "UnblockClient h configFilePath =
     (if configFilePath = [] then (Some EmptyConfigPath, h)
      else let clientName = client_name configFilePath
           in if clientName = [] then (Some InvalidClientName, h)
              else if \<not> reachable h then (Some ConnectFailed, h)
              else (case executeCommand h (unblock_cmd clientName) of
                      (Inl e, h') \<Rightarrow> (Some e, h')
                    | (Inr out, h') \<Rightarrow> restartWireguard h'))"

definition is_blocked_cmd :: "string \<Rightarrow> command" where
  "is_blocked_cmd clientName = Grep_count_or_zero (''#BLOCKED '' @ clientName) wg0_conf"

text \<open>\<^verbatim>\<open>IsClientBlocked\<close> returns a pair as in Go: the answer and the error, if any.\<close>

definition IsClientBlocked :: "host \<Rightarrow> string \<Rightarrow> bool \<times> error option" where
  "IsClientBlocked h configFilePath =
     (if configFilePath = [] then (False, Some EmptyConfigPath)
      else let clientName = client_name configFilePath
           in if clientName = [] then (False, Some InvalidClientName)
              else if \<not> reachable h then (False, Some ConnectFailed)
              else (case executeCommand h (is_blocked_cmd clientName) of
                      (Inl e, h') \<Rightarrow> (False, Some e)
                    | (Inr output, h') \<Rightarrow>
                        (case Atoi (trim_space output) of
                           None \<Rightarrow> (False, Some ParseFailed)
                         | Some count \<Rightarrow> (0 < count, None))))"

text \<open>The body of the loop of \<^verbatim>\<open>getNextClientIP\<close>: the last octet read from one line of the
  \<^verbatim>\<open>grep\<close> output, \<open>None\<close> where the loop says \<^verbatim>\<open>continue\<close>.\<close>

definition last_octet :: "string \<Rightarrow> int option" where
  "last_octet line =
     (if line = [] then None
      else let parts = split_on (CHR ''='') line
           in if length parts < 2 then None
              else let ipWithCIDR = trim_space (parts ! 1);
                       ipOnly = hd (split_on (CHR ''/'') ipWithCIDR);
                       ipParts = split_on (CHR ''.'') ipOnly
                   in if length ipParts < 4 then None else Atoi (ipParts ! 3))"

definition max_step :: "string \<Rightarrow> int \<Rightarrow> int" where
  "max_step line maxIP =
     (case last_octet line of
        None \<Rightarrow> maxIP
      | Some lastPart \<Rightarrow> if maxIP < lastPart then lastPart else maxIP)"

definition next_ip_of_output :: "string \<Rightarrow> string" where
  "next_ip_of_output output =
     (let lines = split_on nl output;
          maxIP = fold max_step lines 1
      in ''10.0.0.'' @ itoa (wrap64 (maxIP + 1)) @ ''/32'')"

text \<open>\<^verbatim>\<open>getNextClientIP\<close> never returns an error: a failing \<^verbatim>\<open>grep\<close> gives the first client
  address.\<close>

definition getNextClientIP :: "host \<Rightarrow> error + string" where
  "getNextClientIP h =
     (case executeCommand h (Grep ''AllowedIPs'' wg0_conf) of
        (Inl e, h') \<Rightarrow> Inr ''10.0.0.2/32''
      | (Inr output, h') \<Rightarrow> Inr (next_ip_of_output output))"

definition add_client_cmd :: "string \<Rightarrow> string \<Rightarrow> string \<Rightarrow> command" where
  "add_client_cmd clientName publicKey clientIP =
     Echo_append
       ([nl] @ ''# '' @ clientName @ [nl] @ ''[Peer]'' @ [nl]
        @ ''PublicKey = '' @ publicKey @ [nl]
        @ ''AllowedIPs = '' @ clientIP @ [nl])
       wg0_conf"

definition addClientToServer :: "host \<Rightarrow> string \<Rightarrow> string \<Rightarrow> string \<Rightarrow> error option \<times> host" where
  "addClientToServer h clientName publicKey clientIP =
     (case executeCommand h (add_client_cmd clientName publicKey clientIP) of
        (Inl e, h') \<Rightarrow> (Some e, h')
      | (Inr out, h') \<Rightarrow> (None, h'))"

definition remove_client_cmd :: "string \<Rightarrow> command" where
  "remove_client_cmd clientName = Grep_v_tmp_mv (''# '' @ clientName) wg0_conf wg0_tmp"

definition removeClientFromServer :: "host \<Rightarrow> string \<Rightarrow> error option \<times> host" where
  "removeClientFromServer h clientName =
     (case executeCommand h (remove_client_cmd clientName) of
        (Inl e, h') \<Rightarrow> (Some e, h')
      | (Inr out, h') \<Rightarrow> (None, h'))"

subsection \<open>How a call commits its change to a file\<close>

text \<open>
  The operations of a call commit to \<open>f\<close> by temp-file-then-move when they are: the whole
  new text written to another file, and that file moved over \<open>f\<close>. They leave \<open>f\<close> alone
  when none of them appends to, writes or moves \<open>f\<close>, or moves a file over it.
\<close>

fun temp_then_move :: "string \<Rightarrow> fs_op list \<Rightarrow> bool" where
  "temp_then_move f [Write_to tmp text, Move a b] = (a = tmp \<and> b = f \<and> tmp \<noteq> f)"
| "temp_then_move f ops = False"

fun touches :: "string \<Rightarrow> fs_op \<Rightarrow> bool" where
  "touches f (Append_to g s) = (g = f)"
| "touches f (Write_to g s) = (g = f)"
| "touches f (Move a b) = (a = f \<or> b = f)"

definition leaves_alone :: "string \<Rightarrow> fs_op list \<Rightarrow> bool" where
  "leaves_alone f ops = (\<not> list_ex (touches f) ops)"

section \<open>Creating a client configuration\<close>

text \<open>The machine the bot runs on: the files under the configuration directory, and
  whether \<^verbatim>\<open>ioutil.WriteFile\<close> succeeds.\<close>

record local_fs =
  artifacts :: "string \<Rightarrow> string option"
  write_ok :: bool

definition generateClientKeys :: "host \<Rightarrow> error + (string \<times> string)" where
  "generateClientKeys h =
     (case client_keys h of None \<Rightarrow> Inl KeyGenFailed | Some ks \<Rightarrow> Inr ks)"

definition getServerInfo :: "host \<Rightarrow> error + server_info" where
  "getServerInfo h =
     (case server_info h of None \<Rightarrow> Inl ServerInfoFailed | Some i \<Rightarrow> Inr i)"

text \<open>The text of the client configuration file.\<close>

definition config_content :: "string \<Rightarrow> server_info \<Rightarrow> string \<Rightarrow> string" where
  "config_content privateKey serverInfo clientIP =
     ''[Interface]'' @ [nl]
     @ ''PrivateKey = '' @ privateKey @ [nl]
     @ ''Address = '' @ hd (split_on (CHR ''/'') clientIP) @ ''/32'' @ [nl]
     @ ''DNS = 8.8.8.8, 1.1.1.1'' @ [nl]
     @ [nl]
     @ ''[Peer]'' @ [nl]
     @ ''PublicKey = '' @ ServerPublicKey serverInfo @ [nl]
     @ ''AllowedIPs = 0.0.0.0/0'' @ [nl]
     @ ''Endpoint = '' @ ServerPublicIP serverInfo @ '':'' @ ServerPort serverInfo @ [nl]
     @ ''PersistentKeepalive = 25'' @ [nl]"

text \<open>\<^verbatim>\<open>filepath.Join(configDir, clientName+".conf")\<close>, for a clean directory path and a name
  without separators.\<close>

definition config_path :: "string \<Rightarrow> string \<Rightarrow> string" where
  "config_path configDir clientName = configDir @ ''/'' @ clientName @ ''.conf''"

definition createLocalClientConfig ::
  "string \<Rightarrow> local_fs \<Rightarrow> string \<Rightarrow> string \<Rightarrow> server_info \<Rightarrow> string \<Rightarrow> (error + string) \<times> local_fs" where
  "createLocalClientConfig configDir loc clientName privateKey serverInfo clientIP =
     (let configContent = config_content privateKey serverInfo clientIP;
          configPath = config_path configDir clientName
      in if write_ok loc
         then (Inr configPath, loc\<lparr>artifacts := (artifacts loc)(configPath \<mapsto> configContent)\<rparr>)
         else (Inl LocalWriteFailed, loc))"

text \<open>\<^verbatim>\<open>CreateClientConfig\<close>: the stages in the order of the source, each returning at its
  error. The result is the path of the artifact, the remote host and the local files
  afterwards.\<close>

definition CreateClientConfig ::
  "string \<Rightarrow> host \<Rightarrow> local_fs \<Rightarrow> string \<Rightarrow> (error + string) \<times> host \<times> local_fs" where
  "CreateClientConfig configDir h loc clientName =
     (if \<not> reachable h then (Inl ConnectFailed, h, loc)
      else (case generateClientKeys h of
              Inl e \<Rightarrow> (Inl e, h, loc)
            | Inr (privateKey, publicKey) \<Rightarrow>
                (case getServerInfo h of
                   Inl e \<Rightarrow> (Inl e, h, loc)
                 | Inr serverInfo \<Rightarrow>
                     (case getNextClientIP h of
                        Inl e \<Rightarrow> (Inl e, h, loc)
                      | Inr clientIP \<Rightarrow>
                          (case addClientToServer h clientName publicKey clientIP of
                             (Some e, h1) \<Rightarrow> (Inl e, h1, loc)
                           | (None, h1) \<Rightarrow>
                               (case restartWireguard h1 of
                                  (Some e, h2) \<Rightarrow> (Inl e, h2, loc)
                                | (None, h2) \<Rightarrow>
                                    (case createLocalClientConfig configDir loc clientName
                                            privateKey serverInfo clientIP of
                                       (Inl e, loc') \<Rightarrow> (Inl e, h2, loc')
                                     | (Inr configPath, loc') \<Rightarrow> (Inr configPath, h2, loc'))))))))"

text \<open>All remote stages of \<^verbatim>\<open>CreateClientConfig\<close> succeed on a host: the connection, the key
  generation, the server information, the address allocation, the append of the peer (its
  session) and the restart of the service (its session and its exit status).\<close>

definition remote_stages_ok :: "host \<Rightarrow> string \<Rightarrow> bool" where
  "remote_stages_ok h clientName =
     (reachable h \<and>
      (case client_keys h of
         None \<Rightarrow> False
       | Some (privateKey, publicKey) \<Rightarrow>
           server_info h \<noteq> None \<and>
           (case getNextClientIP h of
              Inl e \<Rightarrow> False
            | Inr clientIP \<Rightarrow>
                session_ok h (add_client_cmd clientName publicKey clientIP)
                \<and> session_ok h Restart_wireguard \<and> restart_ok h)))"

section \<open>The data model\<close>

text \<open>The fields of the records that the modelled functions read or write. Times are
  instants in nanoseconds.\<close>

record subscription =
  ID :: int
  UserID :: int
  ServerID :: int
  PlanID :: int
  StartDate :: int
  EndDate :: int
  Status :: string
  ConfigFilePath :: string
  DataUsage :: int
  LastConnectionAt :: "int option"

record user =
  user_ID :: int
  TelegramID :: int
  Username :: string

record plan =
  plan_ID :: int
  Name :: string
  Duration :: int

record server =
  server_ID :: int
  IsActive :: bool
  MaxClients :: int
  CurrentClients :: int

definition day_ns :: int where
  "day_ns = 86400000000000"

section \<open>The purchase flow\<close>

text \<open>
  What \<^verbatim>\<open>handleSuccessfulPayment\<close> works on: the tables it queries (\<open>None\<close> or \<open>False\<close>:
  the query fails), \<^verbatim>\<open>SetupServer\<close> as a function of the remote host, the remote host of
  every server, the local files, and the subscriptions table with the next row id.
\<close>

record shop =
  plan_by_id :: "int \<Rightarrow> plan option"
  servers_query_ok :: bool
  server_rows :: "server list"
  user_by_telegram :: "int \<Rightarrow> user option"
  setup_server :: "host \<Rightarrow> error option \<times> host"
  hosts :: "int \<Rightarrow> host"
  local_files :: local_fs
  config_dir :: string
  insert_ok :: bool
  counter_ok :: bool
  next_id :: int
  rows :: "subscription list"

text \<open>What the user is told at the end of \<^verbatim>\<open>handleSuccessfulPayment\<close>.\<close>

datatype reply =
    BadPayload
  | BadPlanID
  | PlanNotFound
  | ServersUnavailable
  | NoServer
  | UserNotFound
  | SetupError error
  | ConfigError error
  | SubscriptionError error
  | Purchased string

text \<open>\<^verbatim>\<open>AddSubscription\<close>: the insert, then the client counter of the server; a failing
  counter update returns an error after the row was inserted.\<close>

definition AddSubscription :: "shop \<Rightarrow> subscription \<Rightarrow> error option \<times> shop" where
  "AddSubscription sh sub =
     (if \<not> insert_ok sh then (Some DbFailed, sh)
      else let sh1 = sh\<lparr>rows := rows sh @ [sub\<lparr>ID := next_id sh\<rparr>], next_id := next_id sh + 1\<rparr>
           in if \<not> counter_ok sh then (Some DbFailed, sh1)
              else (None, sh1\<lparr>server_rows :=
                      map (\<lambda>srv. if server_ID srv = ServerID sub
                                  then srv\<lparr>CurrentClients := CurrentClients srv + 1\<rparr> else srv)
                          (server_rows sh1)\<rparr>))"

text \<open>
  \<^verbatim>\<open>handleSuccessfulPayment\<close> up to the insert of the subscription; what follows it (the
  payment row, the messages to the user) does not touch the subscriptions table. \<open>now\<close> is
  \<^verbatim>\<open>time.Now()\<close>; \<^verbatim>\<open>AddDate(0, 0, d)\<close> is taken as \<open>d\<close> days of 24 hours.
\<close>

definition handleSuccessfulPayment :: "int \<Rightarrow> int \<Rightarrow> string \<Rightarrow> shop \<Rightarrow> reply \<times> shop" where
  "handleSuccessfulPayment now userID payload sh =
     (let parts = split_on (CHR '':'') payload
      in if length parts \<noteq> 2 \<or> parts ! 0 \<noteq> ''plan'' then (BadPayload, sh)
         else (case Atoi (parts ! 1) of
            None \<Rightarrow> (BadPlanID, sh)
          | Some planID \<Rightarrow>
         (case plan_by_id sh planID of
            None \<Rightarrow> (PlanNotFound, sh)
          | Some plan \<Rightarrow>
         if \<not> servers_query_ok sh then (ServersUnavailable, sh)
         else (case find (\<lambda>srv. IsActive srv \<and> CurrentClients srv < MaxClients srv)
                         (server_rows sh) of
            None \<Rightarrow> (NoServer, sh)
          | Some availableServer \<Rightarrow>
         (case user_by_telegram sh userID of
            None \<Rightarrow> (UserNotFound, sh)
          | Some user \<Rightarrow>
         (let startDate = now;
              endDate = startDate + Duration plan * day_ns;
              subscription = \<lparr>ID = 0, UserID = user_ID user,
                               ServerID = server_ID availableServer, PlanID = planID,
                               StartDate = startDate, EndDate = endDate,
                               Status = ''active'', ConfigFilePath = [],
                               DataUsage = 0, LastConnectionAt = None\<rparr>;
              sid = server_ID availableServer
          in (case setup_server sh (hosts sh sid) of
                (Some e, h1) \<Rightarrow> (SetupError e, sh\<lparr>hosts := (hosts sh)(sid := h1)\<rparr>)
              | (None, h1) \<Rightarrow>
                  (case CreateClientConfig (config_dir sh) h1 (local_files sh)
                          (''user_'' @ itoa (user_ID user)) of
                     (Inl e, h2, loc') \<Rightarrow>
                       (ConfigError e, sh\<lparr>hosts := (hosts sh)(sid := h2), local_files := loc'\<rparr>)
                   | (Inr configPath, h2, loc') \<Rightarrow>
                       (case AddSubscription
                               (sh\<lparr>hosts := (hosts sh)(sid := h2), local_files := loc'\<rparr>)
                               (subscription\<lparr>ConfigFilePath := configPath\<rparr>) of
                          (Some e, sh3) \<Rightarrow> (SubscriptionError e, sh3)
                        | (None, sh3) \<Rightarrow> (Purchased configPath, sh3))))))))))"

section \<open>The reconciliation sweep\<close>

text \<open>The messages the sweep sends, by their fields: the expiry notice (subscription,
  plan name, start, end), the warning (subscription, plan name, end, days left) and the
  report to an administrator (number of processed subscriptions, one line each: position,
  subscription, user, plan name, end).\<close>

datatype message =
    ExpiredNotice int string int int
  | ExpiryWarning int string int int
  | AdminReport nat "(nat \<times> int \<times> string \<times> string \<times> int) list"

text \<open>The calls the sweep makes to its collaborators.\<close>

datatype call =
    Update_subscription subscription
  | Revoke_config int string
  | Send int message

text \<open>
  What the sweep works on: the subscriptions table, whether the queries and updates
  succeed, the lookups by id, the result of \<^verbatim>\<open>vpnManager.RevokeClientConfig\<close> for a server
  and a configuration path, whether \<^verbatim>\<open>bot.Send\<close> succeeds, and the calls made so far,
  oldest first.
\<close>

record world =
  table :: "subscription list"
  select_ok :: bool
  update_ok :: "int \<Rightarrow> bool"
  server_by_id :: "int \<Rightarrow> server option"
  revoke_result :: "int \<Rightarrow> string \<Rightarrow> error option"
  user_by_id :: "int \<Rightarrow> user option"
  plan_of_id :: "int \<Rightarrow> plan option"
  all_admins :: "user list option"
  send_ok :: "int \<Rightarrow> message \<Rightarrow> bool"
  calls :: "call list"

definition getActiveSubscriptions :: "world \<Rightarrow> error + subscription list" where
  "getActiveSubscriptions w =
     (if select_ok w then Inr (filter (\<lambda>s. Status s = ''active'') (table w)) else Inl DbFailed)"

text \<open>\<^verbatim>\<open>UpdateSubscription\<close> writes the status, the data usage and the last connection of
  the row with the id of the subscription.\<close>

definition UpdateSubscription :: "world \<Rightarrow> subscription \<Rightarrow> error option \<times> world" where
  "UpdateSubscription w sub =
     (let w1 = w\<lparr>calls := calls w @ [Update_subscription sub]\<rparr>
      in if update_ok w (ID sub)
         then (None, w1\<lparr>table :=
                 map (\<lambda>r. if ID r = ID sub
                           then r\<lparr>Status := Status sub, DataUsage := DataUsage sub,
                                  LastConnectionAt := LastConnectionAt sub\<rparr>
                           else r)
                     (table w1)\<rparr>)
         else (Some DbFailed, w1))"

text \<open>\<^verbatim>\<open>expireSubscription\<close> sets the status of the subscription it is given, then updates
  the table; the subscription as changed is returned too.\<close>

definition expireSubscription :: "world \<Rightarrow> subscription \<Rightarrow> subscription \<times> error option \<times> world" where
  "expireSubscription w sub =
     (let sub' = sub\<lparr>Status := ''expired''\<rparr>
      in (sub', UpdateSubscription w sub'))"

definition revokeVPNConfig :: "world \<Rightarrow> subscription \<Rightarrow> error option \<times> world" where
  "revokeVPNConfig w sub =
     (case server_by_id w (ServerID sub) of
        None \<Rightarrow> (Some DbFailed, w)
      | Some srv \<Rightarrow>
          (revoke_result w (server_ID srv) (ConfigFilePath sub),
           w\<lparr>calls := calls w @ [Revoke_config (server_ID srv) (ConfigFilePath sub)]\<rparr>))"

definition send :: "world \<Rightarrow> int \<Rightarrow> message \<Rightarrow> error option \<times> world" where
  "send w chat m =
     (if send_ok w chat m then None else Some SendFailed, w\<lparr>calls := calls w @ [Send chat m]\<rparr>)"

definition notifyUser :: "world \<Rightarrow> subscription \<Rightarrow> error option \<times> world" where
  "notifyUser w sub =
     (case user_by_id w (UserID sub) of
        None \<Rightarrow> (Some DbFailed, w)
      | Some u \<Rightarrow>
          (case plan_of_id w (PlanID sub) of
             None \<Rightarrow> (Some DbFailed, w)
           | Some p \<Rightarrow>
               send w (TelegramID u)
                 (ExpiredNotice (ID sub) (Name p) (StartDate sub) (EndDate sub))))"

definition notifyUserAboutExpiration :: "world \<Rightarrow> subscription \<Rightarrow> int \<Rightarrow> error option \<times> world" where
  "notifyUserAboutExpiration w sub daysLeft =
     (case user_by_id w (UserID sub) of
        None \<Rightarrow> (Some DbFailed, w)
      | Some u \<Rightarrow>
          (case plan_of_id w (PlanID sub) of
             None \<Rightarrow> (Some DbFailed, w)
           | Some p \<Rightarrow>
               send w (TelegramID u)
                 (ExpiryWarning (ID sub) (Name p) (EndDate sub) daysLeft)))"

text \<open>One line of the report, \<open>None\<close> where the user or the plan cannot be resolved.\<close>

definition report_line :: "world \<Rightarrow> nat \<times> subscription \<Rightarrow> (nat \<times> int \<times> string \<times> string \<times> int) option" where
  "report_line w ix =
     (case ix of (i, sub) \<Rightarrow>
        (case user_by_id w (UserID sub) of
           None \<Rightarrow> None
         | Some u \<Rightarrow>
             (case plan_of_id w (PlanID sub) of
                None \<Rightarrow> None
              | Some p \<Rightarrow>
                  (let userInfo = (if Username u = [] then ''ID: '' @ itoa (TelegramID u)
                                   else Username u)
                   in Some (i + 1, ID sub, userInfo, Name p, EndDate sub)))))"

definition notifyAdmins :: "world \<Rightarrow> subscription list \<Rightarrow> error option \<times> world" where
  "notifyAdmins w expiredSubscriptions =
     (case all_admins w of
        None \<Rightarrow> (Some DbFailed, w)
      | Some admins \<Rightarrow>
          if admins = [] then (None, w)
          else let m = AdminReport (length expiredSubscriptions)
                         (List.map_filter (report_line w) (enumerate 0 expiredSubscriptions))
               in (None, fold (\<lambda>admin w'. snd (send w' (TelegramID admin) m)) admins w))"

text \<open>
  \<^verbatim>\<open>EndDate.Sub(now)\<close> saturates at the range of a duration. The source then divides the
  hours by 24 in floating point and truncates; the model takes the integer quotient of the
  nanoseconds, used only where the duration is not negative.
\<close>

definition days_left :: "int \<Rightarrow> int \<Rightarrow> int" where
  "days_left now endDate = min int64_max (max int64_min (endDate - now)) div day_ns"

text \<open>The body of the loop for one subscription; the state carried through the loop is
  the world, \<^verbatim>\<open>expiredCount\<close> and \<^verbatim>\<open>expiredSubscriptions\<close>.\<close>

definition sweep_step ::
  "int \<Rightarrow> subscription \<Rightarrow> world \<times> nat \<times> subscription list \<Rightarrow> world \<times> nat \<times> subscription list" where
  "sweep_step now sub st =
     (case st of (w, expiredCount, expiredSubscriptions) \<Rightarrow>
        if EndDate sub < now
        then (case expireSubscription w sub of
                (sub', Some e, w1) \<Rightarrow> (w1, expiredCount, expiredSubscriptions)
              | (sub', None, w1) \<Rightarrow>
                  (case revokeVPNConfig w1 sub' of
                     (Some e, w2) \<Rightarrow> (w2, expiredCount, expiredSubscriptions)
                   | (None, w2) \<Rightarrow>
                       (snd (notifyUser w2 sub'), expiredCount + 1,
                        expiredSubscriptions @ [sub'])))
        else (let daysLeft = days_left now (EndDate sub)
              in if daysLeft \<le> 3 \<and> 0 \<le> daysLeft
                 then (snd (notifyUserAboutExpiration w sub daysLeft), expiredCount,
                       expiredSubscriptions)
                 else (w, expiredCount, expiredSubscriptions)))"

text \<open>\<^verbatim>\<open>checkExpiredSubscriptions\<close>, with \<open>now\<close> the instant \<^verbatim>\<open>time.Now()\<close> returns after the
  subscriptions were read.\<close>

definition checkExpiredSubscriptions :: "int \<Rightarrow> world \<Rightarrow> world" where
  "checkExpiredSubscriptions now w =
     (case getActiveSubscriptions w of
        Inl e \<Rightarrow> w
      | Inr subscriptions \<Rightarrow>
          (case fold (sweep_step now) subscriptions (w, 0, []) of
             (w1, expiredCount, expiredSubscriptions) \<Rightarrow>
               if 0 < expiredCount then snd (notifyAdmins w1 expiredSubscriptions) else w1))"

section \<open>Views of the registry and example states\<close>

text \<open>The lines of the registry that \<^verbatim>\<open>grep AllowedIPs\<close> selects, and the last octets
  \<^verbatim>\<open>getNextClientIP\<close> reads from a list of lines.\<close>

definition allowed_ips_lines :: "string \<Rightarrow> string list" where
  "allowed_ips_lines t = filter (contains ''AllowedIPs'') (file_lines t)"

definition octets_of :: "string list \<Rightarrow> int list" where
  "octets_of ls = List.map_filter last_octet ls"

definition registry :: "host \<Rightarrow> string list option" where
  "registry h = map_option file_lines (files h wg0_conf)"

text \<open>The interface section \<^verbatim>\<open>setupServerConfig\<close> writes (without its firewall lines), and
  the lines \<^verbatim>\<open>addClientToServer\<close> appends for a peer, as they are and as blocking leaves
  them.\<close>

definition interface_lines :: "string list" where
  "interface_lines =
     [''[Interface]'', ''PrivateKey = SK'', ''Address = 10.0.0.1/24'', ''ListenPort = 51820'']"

definition peer_lines :: "string \<Rightarrow> string \<Rightarrow> string \<Rightarrow> string list" where
  "peer_lines name key ip =
     [[], ''# '' @ name, ''[Peer]'', ''PublicKey = '' @ key, ''AllowedIPs = '' @ ip, []]"

definition blocked_peer_lines :: "string \<Rightarrow> string \<Rightarrow> string \<Rightarrow> string list" where
  "blocked_peer_lines name key ip =
     [[], ''#BLOCKED '' @ name, ''#[Peer]'', ''#PublicKey = '' @ key,
      ''#AllowedIPs = '' @ ip, []]"

text \<open>A host on which every command runs, with the given registry text (\<open>None\<close>: the
  registry file does not exist).\<close>

definition host_with :: "string option \<Rightarrow> host" where
  "host_with reg =
     \<lparr>reachable = True, session_ok = (\<lambda>c. True),
      files = (\<lambda>f. if f = wg0_conf then reg else None), restart_ok = True,
      client_keys = Some (''CK'', ''PK''),
      server_info = Some \<lparr>ServerPublicKey = ''SPK'', ServerPublicIP = ''203.0.113.7'',
                           ServerPort = ''51820''\<rparr>\<rparr>"

definition peers_2_3_5 :: string where
  "peers_2_3_5 =
     unlines (interface_lines @ peer_lines ''user_1'' ''PK1'' ''10.0.0.2/32''
              @ peer_lines ''user_2'' ''PK2'' ''10.0.0.3/32''
              @ peer_lines ''user_3'' ''PK3'' ''10.0.0.5/32'')"

definition peers_up_to_255 :: string where
  "peers_up_to_255 =
     unlines (interface_lines @ peer_lines ''user_1'' ''PK1'' ''10.0.0.2/32''
              @ peer_lines ''user_254'' ''PK254'' ''10.0.0.255/32'')"

definition two_active_peers :: string where
  "two_active_peers =
     unlines (interface_lines @ peer_lines ''user_1'' ''PK1'' ''10.0.0.2/32''
              @ peer_lines ''user_2'' ''PK2'' ''10.0.0.3/32'')"

definition blocked_2_active_1 :: string where
  "blocked_2_active_1 =
     unlines (interface_lines @ blocked_peer_lines ''user_2'' ''PK2'' ''10.0.0.2/32''
              @ peer_lines ''user_1'' ''PK1'' ''10.0.0.3/32'')"

definition blocked_12_active_1 :: string where
  "blocked_12_active_1 =
     unlines (interface_lines @ blocked_peer_lines ''user_12'' ''PK12'' ''10.0.0.2/32''
              @ peer_lines ''user_1'' ''PK1'' ''10.0.0.3/32'')"

definition one_peer :: string where
  "one_peer = unlines (interface_lines @ peer_lines ''user_1'' ''PK1'' ''10.0.0.2/32'')"

text \<open>Example states of the purchase flow: a host that cannot be reached, local files
  with nothing stored yet, a shop with one plan, one server and one user, and the same shop
  when the host of the server is down.\<close>

definition host_down :: host where
  "host_down = (host_with (Some (unlines interface_lines)))\<lparr>reachable := False\<rparr>"

definition local_empty :: local_fs where
  "local_empty = \<lparr>artifacts = (\<lambda>p. None), write_ok = True\<rparr>"

definition shop_example :: shop where
  "shop_example =
     \<lparr>plan_by_id = (\<lambda>i. if i = 1 then Some \<lparr>plan_ID = 1, Name = ''Monthly'', Duration = 30\<rparr>
                           else None),
      servers_query_ok = True,
      server_rows = [\<lparr>server_ID = 3, IsActive = True, MaxClients = 10, CurrentClients = 0\<rparr>],
      user_by_telegram = (\<lambda>t. if t = 501
                                then Some \<lparr>user_ID = 7, TelegramID = 501, Username = ''alice''\<rparr>
                                else None),
      setup_server = (\<lambda>h. (None, h)),
      hosts = (\<lambda>i. host_with (Some (unlines interface_lines))),
      local_files = local_empty,
      config_dir = ''configs'',
      insert_ok = True,
      counter_ok = True,
      next_id = 1,
      rows = []\<rparr>"

definition shop_host_down :: shop where
  "shop_host_down = shop_example\<lparr>hosts := (\<lambda>i. host_down)\<rparr>"

text \<open>Views of the sweep: two worlds answer every query alike; every row with a given id
  is expired; a later world of the same run (same answers, more calls, expired rows still
  expired).\<close>

definition same_oracles :: "world \<Rightarrow> world \<Rightarrow> bool" where
  "same_oracles w w' =
     (select_ok w' = select_ok w \<and> update_ok w' = update_ok w
      \<and> server_by_id w' = server_by_id w \<and> revoke_result w' = revoke_result w
      \<and> user_by_id w' = user_by_id w \<and> plan_of_id w' = plan_of_id w
      \<and> all_admins w' = all_admins w \<and> send_ok w' = send_ok w)"

definition expired_in :: "int \<Rightarrow> world \<Rightarrow> bool" where
  "expired_in i w = list_all (\<lambda>r. ID r = i \<longrightarrow> Status r = ''expired'') (table w)"

definition grows :: "world \<Rightarrow> world \<Rightarrow> bool" where
  "grows w w' =
     (same_oracles w w' \<and> (\<exists>cs. calls w' = calls w @ cs)
      \<and> (\<forall>i. expired_in i w \<longrightarrow> expired_in i w'))"






text \<open>Example worlds: one subscription of user 7 that ends at the instant 1000; two
  subscriptions that ended, on the servers 3 and 4, where every revoke on server 3 fails.\<close>

definition sub_1 :: subscription where
  "sub_1 = \<lparr>ID = 1, UserID = 7, ServerID = 3, PlanID = 1, StartDate = 0, EndDate = 1000,
            Status = ''active'', ConfigFilePath = ''configs/user_7.conf'', DataUsage = 0,
            LastConnectionAt = None\<rparr>"

definition sub_2 :: subscription where
  "sub_2 = \<lparr>ID = 2, UserID = 8, ServerID = 4, PlanID = 1, StartDate = 0, EndDate = 900,
            Status = ''active'', ConfigFilePath = ''configs/user_8.conf'', DataUsage = 0,
            LastConnectionAt = None\<rparr>"

definition world_with :: "subscription list \<Rightarrow> world" where
  "world_with subs =
     \<lparr>table = subs, select_ok = True, update_ok = (\<lambda>i. True),
      server_by_id = (\<lambda>i. Some \<lparr>server_ID = i, IsActive = True, MaxClients = 10,
                                  CurrentClients = 1\<rparr>),
      revoke_result = (\<lambda>sid path. if sid = 3 then Some CommandFailed else None),
      user_by_id = (\<lambda>i. Some \<lparr>user_ID = i, TelegramID = 500 + i, Username = ''user''\<rparr>),
      plan_of_id = (\<lambda>i. Some \<lparr>plan_ID = i, Name = ''Monthly'', Duration = 30\<rparr>),
      all_admins = Some [\<lparr>user_ID = 1, TelegramID = 900, Username = ''admin''\<rparr>],
      send_ok = (\<lambda>chat m. True),
      calls = []\<rparr>"

section \<open>Properties of the text helpers\<close>

lemma split_on_nonempty: "split_on c s \<noteq> []"
  by (induction s) (auto split: list.splits)

lemma split_on_pieces: "p \<in> set (split_on c s) \<Longrightarrow> c \<notin> set p"
proof (induction s arbitrary: p)
  case Nil
  then show ?case by simp
next
  case (Cons x xs)
  show ?case
  proof (cases "x = c")
    case True
    with Cons show ?thesis by auto
  next
    case False
    obtain q qs where q: "split_on c xs = q # qs"
      using split_on_nonempty [of c xs] by (cases "split_on c xs") auto
    with Cons False show ?thesis by auto
  qed
qed

lemma file_lines_no_nl: "l \<in> set (file_lines t) \<Longrightarrow> nl \<notin> set l"
  unfolding file_lines_def Let_def
  by (auto dest: split_on_pieces in_set_butlastD split: if_splits)

lemma split_on_line: "c \<notin> set l \<Longrightarrow> split_on c (l @ c # s) = l # split_on c s"
  by (induction l) auto

lemma split_on_unlines:
  "(\<And>l. l \<in> set ls \<Longrightarrow> nl \<notin> set l) \<Longrightarrow> split_on nl (unlines ls) = ls @ [[]]"
  by (induction ls) (auto simp: unlines_def split_on_line)

lemma wrap64_id: "int64_min \<le> x \<Longrightarrow> x \<le> int64_max \<Longrightarrow> wrap64 x = x"
  by (simp add: wrap64_def int64_min_def int64_max_def)

section \<open>The next free address\<close>

text \<open>The loop of \<^verbatim>\<open>getNextClientIP\<close> computes the maximum of its start value and the
  octets it reads.\<close>

lemma fold_max_step: "fold max_step ls m = Max (insert m (set (octets_of ls)))"
proof (induction ls arbitrary: m)
  case Nil
  then show ?case by (simp add: octets_of_def List.map_filter_def)
next
  case (Cons l ls)
  show ?case
  proof (cases "last_octet l")
    case None
    then show ?thesis using Cons [of m]
      by (simp add: max_step_def octets_of_def List.map_filter_def)
  next
    case (Some k)
    have step: "max_step l m = max m k"
      using Some by (simp add: max_step_def max_def)
    have "fold max_step (l # ls) m = fold max_step ls (max m k)"
      by (simp add: step)
    also have "\<dots> = Max (insert (max m k) (set (octets_of ls)))"
      by (rule Cons)
    also have "\<dots> = Max (insert m (insert k (set (octets_of ls))))"
    proof (cases "set (octets_of ls) = {}")
      case True
      then show ?thesis by simp
    next
      case False
      then show ?thesis by (simp add: max.assoc)
    qed
    also have "insert m (insert k (set (octets_of ls))) = insert m (set (octets_of (l # ls)))"
      using Some by (simp add: octets_of_def List.map_filter_def)
    finally show ?thesis .
  qed
qed

lemma octets_of_append_empty: "octets_of (ls @ [[]]) = octets_of ls"
  by (simp add: octets_of_def List.map_filter_def last_octet_def)

lemma next_ip_of_unlines:
  assumes "\<And>l. l \<in> set ls \<Longrightarrow> nl \<notin> set l"
  shows "next_ip_of_output (unlines ls) =
           ''10.0.0.'' @ itoa (wrap64 (Max (set (1 # octets_of ls)) + 1)) @ ''/32''"
proof -
  have "split_on nl (unlines ls) = ls @ [[]]"
    using assms by (rule split_on_unlines)
  then have "fold max_step (split_on nl (unlines ls)) 1 = Max (insert 1 (set (octets_of ls)))"
    by (simp only: fold_max_step octets_of_append_empty)
  then show ?thesis
    by (simp add: next_ip_of_output_def Let_def)
qed

lemma itoa_2: "itoa 2 = ''2''"
  by (simp add: itoa_def nat_digits.simps digit_char_def)

lemma getNextClientIP_failing_grep:
  "\<not> session_ok h (Grep ''AllowedIPs'' wg0_conf) \<or> files h wg0_conf = None
     \<or> (\<exists>t. files h wg0_conf = Some t \<and> allowed_ips_lines t = [])
   \<Longrightarrow> getNextClientIP h = Inr ''10.0.0.2/32''"
  by (auto simp: getNextClientIP_def executeCommand_def run_command_def allowed_ips_lines_def Let_def)

lemma getNextClientIP_Max:
  assumes ok: "session_ok h (Grep ''AllowedIPs'' wg0_conf)"
    and t: "files h wg0_conf = Some t"
    and bound: "\<And>k. k \<in> set (octets_of (allowed_ips_lines t)) \<Longrightarrow> k < int64_max"
  shows "getNextClientIP h =
           Inr (''10.0.0.'' @ itoa (Max (set (1 # octets_of (allowed_ips_lines t))) + 1) @ ''/32'')"
proof (cases "allowed_ips_lines t = []")
  case True
  then have "getNextClientIP h = Inr ''10.0.0.2/32''"
    using t by (intro getNextClientIP_failing_grep) simp
  moreover have "octets_of (allowed_ips_lines t) = []"
    using True by (simp add: octets_of_def List.map_filter_def)
  ultimately show ?thesis by (simp add: itoa_2)
next
  case False
  let ?ms = "allowed_ips_lines t"
  let ?M = "Max (set (1 # octets_of ?ms))"
  have lines: "\<And>l. l \<in> set ?ms \<Longrightarrow> nl \<notin> set l"
    by (auto simp: allowed_ips_lines_def dest: file_lines_no_nl)
  have lo: "1 \<le> ?M" by simp
  have hi: "?M < int64_max"
    using bound by (auto simp: int64_max_def)
  have "int64_min \<le> ?M + 1"
    using lo unfolding int64_min_def by linarith
  moreover have "?M + 1 \<le> int64_max"
    using hi by linarith
  ultimately have "wrap64 (?M + 1) = ?M + 1"
    by (rule wrap64_id)
  moreover have "getNextClientIP h = Inr (next_ip_of_output (unlines ?ms))"
    using ok t False
    by (simp add: getNextClientIP_def executeCommand_def run_command_def allowed_ips_lines_def Let_def)
  ultimately show ?thesis
    using next_ip_of_unlines [of ?ms] lines by simp
qed

text \<open>
  Claim C4. \<^verbatim>\<open>getNextClientIP\<close> returns the address \<^verbatim>\<open>10.0.0.<m+1>/32\<close>, where \<open>m\<close> is the
  maximum of 1 and the last octets read from the allow-list lines of the registry (read
  octets below the largest \<^verbatim>\<open>int\<close>). When the registry cannot be read or has no allow-list
  line it returns the first client address \<^verbatim>\<open>10.0.0.2/32\<close>; with peers at \<^verbatim>\<open>.2\<close>, \<^verbatim>\<open>.3\<close> and
  \<^verbatim>\<open>.5\<close> it returns \<^verbatim>\<open>10.0.0.6/32\<close>, not the gap \<^verbatim>\<open>.4\<close>.
\<close>

theorem getNextClientIP_max_plus_one:
  "(session_ok h (Grep ''AllowedIPs'' wg0_conf) \<and> files h wg0_conf = Some t
      \<and> (\<forall>k \<in> set (octets_of (allowed_ips_lines t)). k < int64_max)
    \<longrightarrow> getNextClientIP h =
          Inr (''10.0.0.'' @ itoa (Max (set (1 # octets_of (allowed_ips_lines t))) + 1) @ ''/32''))
   \<and> (\<not> session_ok h (Grep ''AllowedIPs'' wg0_conf) \<or> files h wg0_conf = None
        \<or> (\<exists>t'. files h wg0_conf = Some t' \<and> allowed_ips_lines t' = [])
      \<longrightarrow> getNextClientIP h = Inr ''10.0.0.2/32'')
   \<and> getNextClientIP (host_with (Some (unlines interface_lines))) = Inr ''10.0.0.2/32''
   \<and> getNextClientIP (host_with None) = Inr ''10.0.0.2/32''
   \<and> octets_of (allowed_ips_lines peers_2_3_5) = [2, 3, 5]
   \<and> getNextClientIP (host_with (Some peers_2_3_5)) = Inr ''10.0.0.6/32''"
proof -
  have general: "session_ok h (Grep ''AllowedIPs'' wg0_conf) \<and> files h wg0_conf = Some t
      \<and> (\<forall>k \<in> set (octets_of (allowed_ips_lines t)). k < int64_max)
    \<longrightarrow> getNextClientIP h =
          Inr (''10.0.0.'' @ itoa (Max (set (1 # octets_of (allowed_ips_lines t))) + 1) @ ''/32'')"
    using getNextClientIP_Max [of h t] by blast
  have failing: "\<not> session_ok h (Grep ''AllowedIPs'' wg0_conf) \<or> files h wg0_conf = None
        \<or> (\<exists>t'. files h wg0_conf = Some t' \<and> allowed_ips_lines t' = [])
      \<longrightarrow> getNextClientIP h = Inr ''10.0.0.2/32''"
    using getNextClientIP_failing_grep [of h] by blast
  have e1: "getNextClientIP (host_with (Some (unlines interface_lines))) = Inr ''10.0.0.2/32''"
    by code_simp
  have e2: "getNextClientIP (host_with None) = Inr ''10.0.0.2/32''"
    by code_simp
  have e3: "octets_of (allowed_ips_lines peers_2_3_5) = [2, 3, 5]"
    by code_simp
  have e4: "getNextClientIP (host_with (Some peers_2_3_5)) = Inr ''10.0.0.6/32''"
    by code_simp
  from general failing e1 e2 e3 e4 show ?thesis by blast
qed

theorem getNextClientIP_max_plus_one_witness:
  "session_ok (host_with (Some peers_2_3_5)) (Grep ''AllowedIPs'' wg0_conf)
   \<and> files (host_with (Some peers_2_3_5)) wg0_conf = Some peers_2_3_5
   \<and> octets_of (allowed_ips_lines peers_2_3_5) = [2, 3, 5]
   \<and> getNextClientIP (host_with (Some peers_2_3_5)) =
        Inr (''10.0.0.'' @ itoa (Max (set (1 # octets_of (allowed_ips_lines peers_2_3_5))) + 1) @ ''/32'')
   \<and> files (host_with None) wg0_conf = None
   \<and> getNextClientIP (host_with None) = Inr ''10.0.0.2/32''"
proof -
  have a: "session_ok (host_with (Some peers_2_3_5)) (Grep ''AllowedIPs'' wg0_conf)"
    by (simp add: host_with_def)
  have b: "files (host_with (Some peers_2_3_5)) wg0_conf = Some peers_2_3_5"
    by (simp add: host_with_def)
  have o: "octets_of (allowed_ips_lines peers_2_3_5) = [2, 3, 5]"
    by code_simp
  have c: "\<forall>k \<in> set (octets_of (allowed_ips_lines peers_2_3_5)). k < int64_max"
    by (simp add: o int64_max_def)
  have d: "files (host_with None) wg0_conf = None"
    by (simp add: host_with_def)
  show ?thesis
    using a b o c d getNextClientIP_max_plus_one [of "host_with (Some peers_2_3_5)" peers_2_3_5]
      getNextClientIP_max_plus_one [of "host_with None" peers_2_3_5]
    by blast
qed

text \<open>
  Claim C10. The allocation has no upper bound: when the maximum last octet in the
  registry is 255, \<^verbatim>\<open>getNextClientIP\<close> returns \<^verbatim>\<open>10.0.0.256/32\<close>; it returns an address and
  never an error, whatever the host.
\<close>

theorem getNextClientIP_no_upper_bound:
  "(session_ok h (Grep ''AllowedIPs'' wg0_conf) \<and> files h wg0_conf = Some t
      \<and> Max (set (1 # octets_of (allowed_ips_lines t))) = 255
    \<longrightarrow> getNextClientIP h = Inr ''10.0.0.256/32'')
   \<and> (\<exists>ip. getNextClientIP h' = Inr ip)
   \<and> getNextClientIP (host_with (Some peers_up_to_255)) = Inr ''10.0.0.256/32''"
proof -
  have "getNextClientIP h = Inr ''10.0.0.256/32''"
    if ok: "session_ok h (Grep ''AllowedIPs'' wg0_conf)" and t: "files h wg0_conf = Some t"
      and m: "Max (set (1 # octets_of (allowed_ips_lines t))) = 255"
  proof -
    have "k < int64_max" if "k \<in> set (octets_of (allowed_ips_lines t))" for k
    proof -
      have "k \<le> Max (set (1 # octets_of (allowed_ips_lines t)))"
        using that by (intro Max_ge) simp_all
      then show ?thesis using m by (simp add: int64_max_def)
    qed
    then have "getNextClientIP h =
        Inr (''10.0.0.'' @ itoa (Max (set (1 # octets_of (allowed_ips_lines t))) + 1) @ ''/32'')"
      using ok t by (intro getNextClientIP_Max)
    moreover have "itoa 256 = ''256''"
      by (simp add: itoa_def nat_digits.simps digit_char_def)
    ultimately show ?thesis using m by simp
  qed
  moreover have "\<exists>ip. getNextClientIP h' = Inr ip"
    by (simp add: getNextClientIP_def split: prod.splits sum.splits)
  moreover have "getNextClientIP (host_with (Some peers_up_to_255)) = Inr ''10.0.0.256/32''"
    by code_simp
  ultimately show ?thesis by blast
qed

theorem getNextClientIP_no_upper_bound_witness:
  "session_ok (host_with (Some peers_up_to_255)) (Grep ''AllowedIPs'' wg0_conf)
   \<and> files (host_with (Some peers_up_to_255)) wg0_conf = Some peers_up_to_255
   \<and> Max (set (1 # octets_of (allowed_ips_lines peers_up_to_255))) = 255
   \<and> getNextClientIP (host_with (Some peers_up_to_255)) = Inr ''10.0.0.256/32''"
proof -
  have a: "session_ok (host_with (Some peers_up_to_255)) (Grep ''AllowedIPs'' wg0_conf)"
    by (simp add: host_with_def)
  have b: "files (host_with (Some peers_up_to_255)) wg0_conf = Some peers_up_to_255"
    by (simp add: host_with_def)
  have o: "octets_of (allowed_ips_lines peers_up_to_255) = [2, 255]"
    by code_simp
  have c: "Max (set (1 # octets_of (allowed_ips_lines peers_up_to_255))) = 255"
    by (simp add: o)
  show ?thesis
    using a b c getNextClientIP_no_upper_bound [of "host_with (Some peers_up_to_255)" peers_up_to_255]
    by blast
qed

section \<open>Blocking, unblocking, the blocked test and removal on example registries\<close>

text \<open>The script of \<^verbatim>\<open>BlockClient\<close> puts \<^verbatim>\<open>#\<close> before every line that starts a peer section,
  a public key or an allow-list, whatever the client name.\<close>

lemma has_prefix_split: "has_prefix p l \<Longrightarrow> p @ drop (length p) l = l"
  by (induction p l rule: has_prefix.induct) simp_all

lemma sed_prefix_hash:
  "has_prefix a l \<Longrightarrow> sed_subst (Subst_prefix a (CHR ''#'' # a)) l = CHR ''#'' # l"
  by (simp add: has_prefix_split)

lemma block_script_comments_any_peer_line:
  assumes "has_prefix ''[Peer]'' l \<or> has_prefix ''PublicKey'' l \<or> has_prefix ''AllowedIPs'' l"
  shows "sed_line [Subst_line (''# '' @ clientName) (''#BLOCKED '' @ clientName),
                   Subst_prefix ''[Peer]'' ''#[Peer]'',
                   Subst_prefix ''PublicKey'' ''#PublicKey'',
                   Subst_prefix ''AllowedIPs'' ''#AllowedIPs''] l = CHR ''#'' # l"
proof -
  obtain c cs where l: "l = c # cs" using assms by (cases l) auto
  have first: "sed_subst (Subst_line (''# '' @ clientName) (''#BLOCKED '' @ clientName)) l = l"
    using assms l by auto
  have hash: "sed_subst (Subst_prefix a b) (CHR ''#'' # l) = CHR ''#'' # l"
    if "a = ''[Peer]'' \<or> a = ''PublicKey'' \<or> a = ''AllowedIPs''" for a b
    using that by auto
  consider (peer) "has_prefix ''[Peer]'' l" | (key) "has_prefix ''PublicKey'' l"
    | (ips) "has_prefix ''AllowedIPs'' l"
    using assms by blast
  then show ?thesis
  proof cases
    case peer
    then have "sed_subst (Subst_prefix ''[Peer]'' ''#[Peer]'') l = CHR ''#'' # l"
      by (rule sed_prefix_hash)
    then show ?thesis using first hash
      by (simp add: sed_line_def del: sed_subst.simps)
  next
    case key
    then have no: "sed_subst (Subst_prefix ''[Peer]'' ''#[Peer]'') l = l"
      using l by auto
    from key have "sed_subst (Subst_prefix ''PublicKey'' ''#PublicKey'') l = CHR ''#'' # l"
      by (rule sed_prefix_hash)
    then show ?thesis using first no hash
      by (simp add: sed_line_def del: sed_subst.simps)
  next
    case ips
    then have no1: "sed_subst (Subst_prefix ''[Peer]'' ''#[Peer]'') l = l"
      and no2: "sed_subst (Subst_prefix ''PublicKey'' ''#PublicKey'') l = l"
      using l by auto
    from ips have "sed_subst (Subst_prefix ''AllowedIPs'' ''#AllowedIPs'') l = CHR ''#'' # l"
      by (rule sed_prefix_hash)
    then show ?thesis using first no1 no2 hash
      by (simp add: sed_line_def del: sed_subst.simps)
  qed
qed

text \<open>When its session runs and a line is left, \<^verbatim>\<open>removeClientFromServer\<close> succeeds and
  the registry becomes its lines without those that contain the name comment: the second
  \<^verbatim>\<open>grep\<close> of the pipeline gets no line with the pattern and passes all of them on.\<close>

lemma grep_v_A_all_selected:
  "list_all (\<lambda>l. \<not> contains pat l) ls \<Longrightarrow> grep_v_A n pat r printed False ls = ls"
  by (induction ls arbitrary: r printed) simp_all

lemma removeClientFromServer_drops_name_lines_only:
  assumes "session_ok h (remove_client_cmd clientName)" "files h wg0_conf = Some t"
    and "filter (\<lambda>l. \<not> contains (''# '' @ clientName) l) (file_lines t) \<noteq> []"
  shows "fst (removeClientFromServer h clientName) = None"
    and "files (snd (removeClientFromServer h clientName)) wg0_conf =
           Some (unlines (filter (\<lambda>l. \<not> contains (''# '' @ clientName) l) (file_lines t)))"
proof -
  let ?kept = "filter (\<lambda>l. \<not> contains (''# '' @ clientName) l) (file_lines t)"
  have "list_all (\<lambda>l. \<not> contains (''# '' @ clientName) l) ?kept"
    by (simp add: list_all_iff)
  then have out: "grep_v_A 2 (''# '' @ clientName) 0 False False ?kept = ?kept"
    by (rule grep_v_A_all_selected)
  have again: "filter (\<lambda>l. \<not> contains (''# '' @ clientName) l) ?kept = ?kept"
    by simp
  show "fst (removeClientFromServer h clientName) = None"
    using assms out again
    by (simp add: removeClientFromServer_def executeCommand_def run_command_def remove_client_cmd_def Let_def
        del: filter_filter)
  show "files (snd (removeClientFromServer h clientName)) wg0_conf = Some (unlines ?kept)"
    using assms out again
    by (simp add: removeClientFromServer_def executeCommand_def run_command_def remove_client_cmd_def Let_def
        del: filter_filter)
qed


text \<open>
  Claim C2. Blocking a peer and then unblocking it should give back the registry text as
  it was. On a registry where \<^verbatim>\<open>user_2\<close> is blocked and \<^verbatim>\<open>user_1\<close> was added afterwards,
  \<^verbatim>\<open>BlockClient\<close> then \<^verbatim>\<open>UnblockClient\<close> for \<^verbatim>\<open>user_1\<close> both succeed and leave another text:
  the section, key and allow-list lines of \<^verbatim>\<open>user_2\<close> are no longer commented out.
\<close>

theorem block_unblock_uncomments_blocked_peer:
  "registry (snd (UnblockClient
                    (snd (BlockClient (host_with (Some blocked_2_active_1)) ''configs/user_1.conf''))
                    ''configs/user_1.conf'')) =
     Some (interface_lines
           @ [[], ''#BLOCKED user_2'', ''[Peer]'', ''PublicKey = PK2'',
              ''AllowedIPs = 10.0.0.2/32'', []]
           @ peer_lines ''user_1'' ''PK1'' ''10.0.0.3/32'')
   \<and> registry (host_with (Some blocked_2_active_1)) =
     Some (interface_lines @ blocked_peer_lines ''user_2'' ''PK2'' ''10.0.0.2/32''
           @ peer_lines ''user_1'' ''PK1'' ''10.0.0.3/32'')
   \<and> files (snd (UnblockClient
                    (snd (BlockClient (host_with (Some blocked_2_active_1)) ''configs/user_1.conf''))
                    ''configs/user_1.conf'')) wg0_conf
       \<noteq> files (host_with (Some blocked_2_active_1)) wg0_conf
   \<and> fst (BlockClient (host_with (Some blocked_2_active_1)) ''configs/user_1.conf'') = None
   \<and> fst (UnblockClient
             (snd (BlockClient (host_with (Some blocked_2_active_1)) ''configs/user_1.conf''))
             ''configs/user_1.conf'') = None"
  by code_simp

text \<open>
  Claim C3. Blocking should change only the four lines of the named peer. On a registry
  with the peers \<^verbatim>\<open>user_1\<close> and \<^verbatim>\<open>user_2\<close>, \<^verbatim>\<open>BlockClient\<close> for \<^verbatim>\<open>user_1\<close> also comments out
  the section, key and allow-list lines of \<^verbatim>\<open>user_2\<close>.
\<close>

theorem BlockClient_comments_out_every_peer:
  "registry (host_with (Some two_active_peers)) =
     Some (interface_lines @ peer_lines ''user_1'' ''PK1'' ''10.0.0.2/32''
           @ peer_lines ''user_2'' ''PK2'' ''10.0.0.3/32'')
   \<and> registry (snd (BlockClient (host_with (Some two_active_peers)) ''configs/user_1.conf'')) =
     Some (interface_lines @ blocked_peer_lines ''user_1'' ''PK1'' ''10.0.0.2/32''
           @ [[], ''# user_2'', ''#[Peer]'', ''#PublicKey = PK2'',
              ''#AllowedIPs = 10.0.0.3/32'', []])
   \<and> fst (BlockClient (host_with (Some two_active_peers)) ''configs/user_1.conf'') = None"
  by code_simp

text \<open>
  Claim C5. \<^verbatim>\<open>IsClientBlocked\<close> should be true exactly when the blocked marker of that name
  is in the registry. With \<^verbatim>\<open>user_12\<close> blocked and \<^verbatim>\<open>user_1\<close> not, also right after
  \<^verbatim>\<open>user_1\<close> was appended, it answers true for \<^verbatim>\<open>user_1\<close>; with no marker at all it answers
  false together with a parse error.
\<close>

theorem IsClientBlocked_matches_longer_name:
  "registry (host_with (Some blocked_12_active_1)) =
     Some (interface_lines @ blocked_peer_lines ''user_12'' ''PK12'' ''10.0.0.2/32''
           @ peer_lines ''user_1'' ''PK1'' ''10.0.0.3/32'')
   \<and> IsClientBlocked (host_with (Some blocked_12_active_1)) ''configs/user_1.conf''
       = (True, None)
   \<and> IsClientBlocked
         (snd (addClientToServer
                 (host_with (Some (unlines (interface_lines
                      @ blocked_peer_lines ''user_12'' ''PK12'' ''10.0.0.2/32''))))
                 ''user_1'' ''PK1'' ''10.0.0.3/32''))
         ''configs/user_1.conf'' = (True, None)
   \<and> IsClientBlocked (host_with (Some one_peer)) ''configs/user_1.conf''
       = (False, Some ParseFailed)"
  by code_simp

text \<open>
  Claim C7. Removing a peer should delete its name comment and the three lines after it.
  On a registry with the one peer \<^verbatim>\<open>user_1\<close>, \<^verbatim>\<open>removeClientFromServer\<close> succeeds and deletes
  the name comment only: the section, key and allow-list lines stay.
\<close>

theorem removeClientFromServer_keeps_peer_section:
  "registry (host_with (Some one_peer)) =
     Some (interface_lines @ peer_lines ''user_1'' ''PK1'' ''10.0.0.2/32'')
   \<and> registry (snd (removeClientFromServer (host_with (Some one_peer)) ''user_1'')) =
     Some (interface_lines
           @ [[], ''[Peer]'', ''PublicKey = PK1'', ''AllowedIPs = 10.0.0.2/32'', []])
   \<and> fst (removeClientFromServer (host_with (Some one_peer)) ''user_1'') = None"
  by code_simp

section \<open>How the mutations commit\<close>

text \<open>A failing removal leaves the registry file as it was.\<close>

lemma removeClientFromServer_failure_keeps_registry:
  "fst (removeClientFromServer h clientName) \<noteq> None \<Longrightarrow>
   files (snd (removeClientFromServer h clientName)) wg0_conf = files h wg0_conf"
  by (auto simp: removeClientFromServer_def executeCommand_def run_command_def remove_client_cmd_def Let_def
      wg0_conf_def wg0_tmp_def split: option.splits if_splits)

text \<open>The files after a call of \<^verbatim>\<open>executeCommand\<close> are the files before it after the
  operations of the call; a successful removal, block or unblock writes a temporary file
  and moves it over the registry, a failing one does not touch the registry.\<close>

lemma executeCommand_files:
  "files (snd (executeCommand h c)) = fold apply_op (command_ops h c) (files h)"
  by (simp add: executeCommand_def run_command_def command_ops_def split: prod.splits)

lemma sed_tmp_wg0: "sed_tmp wg0_conf \<noteq> wg0_conf" "wg0_tmp \<noteq> wg0_conf"
  by (simp_all add: sed_tmp_def wg0_conf_def wg0_tmp_def)

lemma mutation_success:
  assumes "c = remove_client_cmd n \<or> c = block_cmd n \<or> c = unblock_cmd n"
    and "fst (executeCommand h c) = Inr out"
  shows "\<exists>body tmp. command_ops h c = [Write_to tmp body, Move tmp wg0_conf] \<and> tmp \<noteq> wg0_conf
           \<and> files (snd (executeCommand h c)) wg0_conf = Some body"
proof -
  have ok: "session_ok h c" using assms(2) by (auto simp: executeCommand_def split: if_splits)
  from assms(1) consider (r) "c = remove_client_cmd n" | (b) "c = block_cmd n" | (u) "c = unblock_cmd n"
    by blast
  then obtain body tmp where ops: "command_ops h c = [Write_to tmp body, Move tmp wg0_conf]"
    and tmp: "tmp \<noteq> wg0_conf"
  proof cases
    case r
    with assms(2) ok that [of wg0_tmp] show ?thesis
      by (auto simp: executeCommand_def run_command_def command_ops_def remove_client_cmd_def
          Let_def sed_tmp_wg0 split: option.splits if_splits)
  next
    case b
    with assms(2) ok that [of "sed_tmp wg0_conf"] show ?thesis
      by (auto simp: executeCommand_def run_command_def command_ops_def block_cmd_def
          sed_tmp_wg0 split: option.splits)
  next
    case u
    with assms(2) ok that [of "sed_tmp wg0_conf"] show ?thesis
      by (auto simp: executeCommand_def run_command_def command_ops_def unblock_cmd_def
          sed_tmp_wg0 split: option.splits)
  qed
  have "files (snd (executeCommand h c)) wg0_conf = Some body"
    using tmp by (simp add: executeCommand_files ops)
  with ops tmp show ?thesis by blast
qed

lemma mutation_failure:
  assumes "c = remove_client_cmd n \<or> c = block_cmd n \<or> c = unblock_cmd n"
    and "fst (executeCommand h c) = Inl e"
  shows "leaves_alone wg0_conf (command_ops h c)"
    and "files (snd (executeCommand h c)) wg0_conf = files h wg0_conf"
proof -
  from assms(1) consider (r) "c = remove_client_cmd n" | (b) "c = block_cmd n" | (u) "c = unblock_cmd n"
    by blast
  then have "command_ops h c = [] \<or> (\<exists>body. command_ops h c = [Write_to wg0_tmp body])"
  proof cases
    case r
    with assms(2) show ?thesis
      by (auto simp: executeCommand_def run_command_def command_ops_def remove_client_cmd_def
          Let_def split: option.splits if_splits)
  next
    case b
    with assms(2) show ?thesis
      by (auto simp: executeCommand_def run_command_def command_ops_def block_cmd_def
          split: option.splits if_splits)
  next
    case u
    with assms(2) show ?thesis
      by (auto simp: executeCommand_def run_command_def command_ops_def unblock_cmd_def
          split: option.splits if_splits)
  qed
  then show "leaves_alone wg0_conf (command_ops h c)"
    and "files (snd (executeCommand h c)) wg0_conf = files h wg0_conf"
    using sed_tmp_wg0(2) by (auto simp: leaves_alone_def executeCommand_files)
qed

lemma restartWireguard_files: "files (snd (restartWireguard h)) = files h"
  by (simp add: restartWireguard_def executeCommand_def run_command_def split: prod.splits)

lemma go_level_files:
  "files (snd (removeClientFromServer h n)) = fold apply_op (command_ops h (remove_client_cmd n)) (files h)"
  "files (snd (addClientToServer h n k ip)) = fold apply_op (command_ops h (add_client_cmd n k ip)) (files h)"
  using executeCommand_files [of h "remove_client_cmd n"] executeCommand_files [of h "add_client_cmd n k ip"]
  by (auto simp: removeClientFromServer_def addClientToServer_def split: prod.splits sum.splits)

lemma block_level_files:
  assumes "p \<noteq> []" "client_name p \<noteq> []" "reachable h"
  shows "files (snd (BlockClient h p)) = fold apply_op (command_ops h (block_cmd (client_name p))) (files h)"
    and "files (snd (UnblockClient h p)) = fold apply_op (command_ops h (unblock_cmd (client_name p))) (files h)"
  using assms executeCommand_files [of h "block_cmd (client_name p)"]
    executeCommand_files [of h "unblock_cmd (client_name p)"]
  by (auto simp: BlockClient_def UnblockClient_def Let_def restartWireguard_files
      split: prod.splits sum.splits)

lemma append_ops:
  assumes "session_ok h (add_client_cmd n k ip)"
  shows "command_ops h (add_client_cmd n k ip) =
           [Append_to wg0_conf
              ([nl] @ ''# '' @ n @ [nl] @ ''[Peer]'' @ [nl] @ ''PublicKey = '' @ k @ [nl]
               @ ''AllowedIPs = '' @ ip @ [nl] @ [nl])]"
  using assms by (simp add: command_ops_def add_client_cmd_def)


text \<open>
  Claim C6, as stated: every mutation of the registry (append, remove, block, unblock)
  commits by rewriting the whole file through a temporary file that is moved over the
  registry. On a registry with one peer, \<^verbatim>\<open>addClientToServer\<close> for a second peer succeeds
  with the single operation of appending the new block to the registry file where it is.
\<close>

theorem append_commits_in_place:
  "command_ops (host_with (Some one_peer)) (add_client_cmd ''user_2'' ''PK2'' ''10.0.0.3/32'')
     = [Append_to wg0_conf (unlines (peer_lines ''user_2'' ''PK2'' ''10.0.0.3/32''))]
   \<and> fst (addClientToServer (host_with (Some one_peer)) ''user_2'' ''PK2'' ''10.0.0.3/32'') = None
   \<and> files (snd (addClientToServer (host_with (Some one_peer)) ''user_2'' ''PK2'' ''10.0.0.3/32''))
         wg0_conf
       = Some (one_peer @ unlines (peer_lines ''user_2'' ''PK2'' ''10.0.0.3/32''))
   \<and> \<not> temp_then_move wg0_conf
         (command_ops (host_with (Some one_peer))
            (add_client_cmd ''user_2'' ''PK2'' ''10.0.0.3/32''))"
  by code_simp

text \<open>
  Claim C6, amended: removing, blocking and unblocking a peer commit by writing the whole
  new text to a temporary file that is then moved over the registry (the removal by its
  own redirection and \<^verbatim>\<open>mv\<close>, blocking and unblocking through \<^verbatim>\<open>sed -i\<close>), and when such a
  command fails the registry is not touched; appending a peer is the exception: it appends
  the new block to the registry file in place. In each case the files after the call are
  the files before it after exactly these operations.
\<close>

theorem mutations_commit_by_move_except_append:
  "((c = remove_client_cmd clientName \<or> c = block_cmd clientName \<or> c = unblock_cmd clientName)
      \<and> fst (executeCommand h c) = Inr out \<longrightarrow>
      temp_then_move wg0_conf (command_ops h c)
      \<and> (\<exists>body tmp. command_ops h c = [Write_to tmp body, Move tmp wg0_conf] \<and> tmp \<noteq> wg0_conf
            \<and> files (snd (executeCommand h c)) wg0_conf = Some body))
   \<and> ((c = remove_client_cmd clientName \<or> c = block_cmd clientName \<or> c = unblock_cmd clientName)
      \<and> fst (executeCommand h c) = Inl e \<longrightarrow>
      leaves_alone wg0_conf (command_ops h c)
      \<and> files (snd (executeCommand h c)) wg0_conf = files h wg0_conf)
   \<and> files (snd (executeCommand h c)) = fold apply_op (command_ops h c) (files h)
   \<and> files (snd (removeClientFromServer h clientName))
       = fold apply_op (command_ops h (remove_client_cmd clientName)) (files h)
   \<and> (configFilePath \<noteq> [] \<and> client_name configFilePath \<noteq> [] \<and> reachable h \<longrightarrow>
        files (snd (BlockClient h configFilePath))
          = fold apply_op (command_ops h (block_cmd (client_name configFilePath))) (files h)
        \<and> files (snd (UnblockClient h configFilePath))
          = fold apply_op (command_ops h (unblock_cmd (client_name configFilePath))) (files h))
   \<and> files (snd (addClientToServer h clientName publicKey clientIP))
       = fold apply_op (command_ops h (add_client_cmd clientName publicKey clientIP)) (files h)
   \<and> (session_ok h (add_client_cmd clientName publicKey clientIP) \<longrightarrow>
        command_ops h (add_client_cmd clientName publicKey clientIP) =
          [Append_to wg0_conf
             ([nl] @ ''# '' @ clientName @ [nl] @ ''[Peer]'' @ [nl]
              @ ''PublicKey = '' @ publicKey @ [nl]
              @ ''AllowedIPs = '' @ clientIP @ [nl] @ [nl])]
        \<and> \<not> temp_then_move wg0_conf
              (command_ops h (add_client_cmd clientName publicKey clientIP))
        \<and> \<not> leaves_alone wg0_conf
              (command_ops h (add_client_cmd clientName publicKey clientIP)))"
proof (intro conjI impI)
  assume a: "(c = remove_client_cmd clientName \<or> c = block_cmd clientName
      \<or> c = unblock_cmd clientName) \<and> fst (executeCommand h c) = Inr out"
  then have ex: "\<exists>body tmp. command_ops h c = [Write_to tmp body, Move tmp wg0_conf]
      \<and> tmp \<noteq> wg0_conf \<and> files (snd (executeCommand h c)) wg0_conf = Some body"
    using mutation_success [of c clientName h out] by blast
  then show "temp_then_move wg0_conf (command_ops h c)" by auto
  from ex show "\<exists>body tmp. command_ops h c = [Write_to tmp body, Move tmp wg0_conf]
      \<and> tmp \<noteq> wg0_conf \<and> files (snd (executeCommand h c)) wg0_conf = Some body" .
next
  assume b: "(c = remove_client_cmd clientName \<or> c = block_cmd clientName
      \<or> c = unblock_cmd clientName) \<and> fst (executeCommand h c) = Inl e"
  then show "leaves_alone wg0_conf (command_ops h c)"
    using mutation_failure(1) [of c clientName h e] by blast
  from b show "files (snd (executeCommand h c)) wg0_conf = files h wg0_conf"
    using mutation_failure(2) [of c clientName h e] by blast
next
  show "files (snd (executeCommand h c)) = fold apply_op (command_ops h c) (files h)"
    by (rule executeCommand_files)
  show "files (snd (removeClientFromServer h clientName))
       = fold apply_op (command_ops h (remove_client_cmd clientName)) (files h)"
    by (rule go_level_files)
  show "files (snd (addClientToServer h clientName publicKey clientIP))
       = fold apply_op (command_ops h (add_client_cmd clientName publicKey clientIP)) (files h)"
    by (rule go_level_files)
next
  assume p: "configFilePath \<noteq> [] \<and> client_name configFilePath \<noteq> [] \<and> reachable h"
  then show "files (snd (BlockClient h configFilePath))
          = fold apply_op (command_ops h (block_cmd (client_name configFilePath))) (files h)"
    by (intro block_level_files) simp_all
  from p show "files (snd (UnblockClient h configFilePath))
          = fold apply_op (command_ops h (unblock_cmd (client_name configFilePath))) (files h)"
    by (intro block_level_files) simp_all
next
  assume s: "session_ok h (add_client_cmd clientName publicKey clientIP)"
  note ops = append_ops [OF s]
  show "command_ops h (add_client_cmd clientName publicKey clientIP) =
          [Append_to wg0_conf
             ([nl] @ ''# '' @ clientName @ [nl] @ ''[Peer]'' @ [nl]
              @ ''PublicKey = '' @ publicKey @ [nl]
              @ ''AllowedIPs = '' @ clientIP @ [nl] @ [nl])]"
    by (rule ops)
  show "\<not> temp_then_move wg0_conf (command_ops h (add_client_cmd clientName publicKey clientIP))"
    by (simp add: ops)
  show "\<not> leaves_alone wg0_conf (command_ops h (add_client_cmd clientName publicKey clientIP))"
    by (simp add: ops leaves_alone_def)
qed

theorem mutations_commit_by_move_except_append_witness:
  "fst (executeCommand (host_with (Some one_peer)) (remove_client_cmd ''user_1'')) = Inr []
   \<and> temp_then_move wg0_conf
        (command_ops (host_with (Some one_peer)) (remove_client_cmd ''user_1''))
   \<and> fst (executeCommand (host_with (Some one_peer)) (block_cmd ''user_1'')) = Inr []
   \<and> temp_then_move wg0_conf (command_ops (host_with (Some one_peer)) (block_cmd ''user_1''))
   \<and> fst (executeCommand (host_with None) (unblock_cmd ''user_1'')) = Inl CommandFailed
   \<and> leaves_alone wg0_conf (command_ops (host_with None) (unblock_cmd ''user_1''))
   \<and> files (snd (executeCommand (host_with None) (unblock_cmd ''user_1''))) wg0_conf
       = files (host_with None) wg0_conf
   \<and> client_name ''configs/user_1.conf'' = ''user_1''
   \<and> reachable (host_with (Some one_peer))
   \<and> files (snd (BlockClient (host_with (Some one_peer)) ''configs/user_1.conf''))
       = fold apply_op (command_ops (host_with (Some one_peer)) (block_cmd ''user_1''))
           (files (host_with (Some one_peer)))
   \<and> session_ok (host_with (Some one_peer)) (add_client_cmd ''user_2'' ''PK2'' ''10.0.0.3/32'')
   \<and> \<not> temp_then_move wg0_conf
         (command_ops (host_with (Some one_peer))
            (add_client_cmd ''user_2'' ''PK2'' ''10.0.0.3/32''))"
proof -
  let ?h = "host_with (Some one_peer)"
  have r: "fst (executeCommand ?h (remove_client_cmd ''user_1'')) = Inr []" by code_simp
  have b: "fst (executeCommand ?h (block_cmd ''user_1'')) = Inr []" by code_simp
  have u: "fst (executeCommand (host_with None) (unblock_cmd ''user_1'')) = Inl CommandFailed"
    by code_simp
  have n: "client_name ''configs/user_1.conf'' = ''user_1''" by code_simp
  have re: "reachable ?h" by (simp add: host_with_def)
  have s: "session_ok ?h (add_client_cmd ''user_2'' ''PK2'' ''10.0.0.3/32'')"
    by (simp add: host_with_def)
  note T = mutations_commit_by_move_except_append
  have r1: "temp_then_move wg0_conf (command_ops ?h (remove_client_cmd ''user_1''))"
    using T [where c = "remove_client_cmd ''user_1''" and clientName = "''user_1''" and h = ?h
        and out = "[]", THEN conjunct1, THEN mp, OF conjI [OF disjI1 [OF refl] r]]
    by (elim conjE)
  have b1: "temp_then_move wg0_conf (command_ops ?h (block_cmd ''user_1''))"
    using T [where c = "block_cmd ''user_1''" and clientName = "''user_1''" and h = ?h
        and out = "[]", THEN conjunct1, THEN mp, OF conjI [OF disjI2 [OF disjI1 [OF refl]] b]]
    by (elim conjE)
  note u0 = T [where c = "unblock_cmd ''user_1''" and clientName = "''user_1''"
        and h = "host_with None" and e = CommandFailed, THEN conjunct2, THEN conjunct1, THEN mp,
        OF conjI [OF disjI2 [OF disjI2 [OF refl]] u]]
  note u1 = u0 [THEN conjunct1]
  note u2 = u0 [THEN conjunct2]
  have p: "''configs/user_1.conf'' \<noteq> [] \<and> client_name ''configs/user_1.conf'' \<noteq> []
      \<and> reachable ?h"
    using n re by simp
  have bl: "files (snd (BlockClient ?h ''configs/user_1.conf''))
       = fold apply_op (command_ops ?h (block_cmd ''user_1'')) (files ?h)"
    using T [where h = ?h and configFilePath = "''configs/user_1.conf''",
        THEN conjunct2, THEN conjunct2, THEN conjunct2, THEN conjunct2, THEN conjunct1,
        THEN mp, OF p, THEN conjunct1]
    by (simp only: n)
  have a1: "\<not> temp_then_move wg0_conf
         (command_ops ?h (add_client_cmd ''user_2'' ''PK2'' ''10.0.0.3/32''))"
    using T [where h = ?h and clientName = "''user_2''" and publicKey = "''PK2''"
        and clientIP = "''10.0.0.3/32''",
        THEN conjunct2, THEN conjunct2, THEN conjunct2, THEN conjunct2, THEN conjunct2,
        THEN conjunct2, THEN mp, OF s]
    by (elim conjE)
  show ?thesis
    by (intro conjI r r1 b b1 u u1 u2 n re bl s a1)
qed

section \<open>The order of the stages of provisioning\<close>

lemma restart_host: "snd (restartWireguard h) = h"
  by (simp add: restartWireguard_def executeCommand_def run_command_def)

lemma restart_ok_iff:
  "fst (restartWireguard h) = None \<longleftrightarrow> session_ok h Restart_wireguard \<and> restart_ok h"
  by (simp add: restartWireguard_def executeCommand_def run_command_def)

lemma add_ok_iff:
  "fst (addClientToServer h n k ip) = None \<longleftrightarrow> session_ok h (add_client_cmd n k ip)"
  by (simp add: addClientToServer_def executeCommand_def run_command_def add_client_cmd_def split: option.splits)

lemma add_keeps_flags:
  "session_ok (snd (addClientToServer h n k ip)) = session_ok h"
  "restart_ok (snd (addClientToServer h n k ip)) = restart_ok h"
  by (simp_all add: addClientToServer_def executeCommand_def run_command_def add_client_cmd_def split: option.splits)

lemma getNextClientIP_Inr: "\<exists>ip. getNextClientIP h = Inr ip"
  by (simp add: getNextClientIP_def split: prod.splits sum.splits)

lemma CreateClientConfig_ok:
  assumes "remote_stages_ok h clientName" "write_ok loc"
  shows "fst (CreateClientConfig dir h loc clientName) = Inr (config_path dir clientName)"
    and "artifacts (snd (snd (CreateClientConfig dir h loc clientName))) (config_path dir clientName) \<noteq> None"
proof -
  obtain ip where ip: "getNextClientIP h = Inr ip" using getNextClientIP_Inr by blast
  from assms(1) obtain priv pub info where
    r: "reachable h" and k: "client_keys h = Some (priv, pub)" and i: "server_info h = Some info"
    and a: "session_ok h (add_client_cmd clientName pub ip)"
    and s: "session_ok h Restart_wireguard" and ro: "restart_ok h"
    using ip by (auto simp: remote_stages_ok_def split: option.splits)
  obtain h1 where h1: "addClientToServer h clientName pub ip = (None, h1)"
    using a add_ok_iff [of h clientName pub ip] by (cases "addClientToServer h clientName pub ip") auto
  have h1f: "session_ok h1 = session_ok h" "restart_ok h1 = restart_ok h"
    using add_keeps_flags [of h clientName pub ip] h1 by simp_all
  have rs: "restartWireguard h1 = (None, h1)"
    using s ro h1f restart_ok_iff [of h1] restart_host [of h1]
    by (cases "restartWireguard h1") auto
  show "fst (CreateClientConfig dir h loc clientName) = Inr (config_path dir clientName)"
    using r k i ip h1 rs assms(2)
    by (simp add: CreateClientConfig_def generateClientKeys_def getServerInfo_def
        createLocalClientConfig_def Let_def)
  show "artifacts (snd (snd (CreateClientConfig dir h loc clientName))) (config_path dir clientName) \<noteq> None"
    using r k i ip h1 rs assms(2)
    by (simp add: CreateClientConfig_def generateClientKeys_def getServerInfo_def
        createLocalClientConfig_def Let_def)
qed

lemma CreateClientConfig_fails:
  assumes "\<not> (remote_stages_ok h clientName \<and> write_ok loc)"
  shows "\<exists>e. CreateClientConfig dir h loc clientName = (Inl e, fst (snd (CreateClientConfig dir h loc clientName)), loc)"
proof -
  obtain ip where ip: "getNextClientIP h = Inr ip" using getNextClientIP_Inr by blast
  show ?thesis
  proof (cases "reachable h")
    case False
    then show ?thesis by (simp add: CreateClientConfig_def)
  next
    case r: True
    show ?thesis
    proof (cases "client_keys h")
      case None
      then show ?thesis using r by (simp add: CreateClientConfig_def generateClientKeys_def)
    next
      case (Some ks)
      obtain priv pub where ks: "ks = (priv, pub)" by (cases ks)
      show ?thesis
      proof (cases "server_info h")
        case None
        then show ?thesis using r Some ks
          by (simp add: CreateClientConfig_def generateClientKeys_def getServerInfo_def)
      next
        case i: (Some info)
        obtain ea h1 where h1: "addClientToServer h clientName pub ip = (ea, h1)"
          by (cases "addClientToServer h clientName pub ip")
        show ?thesis
        proof (cases ea)
          case (Some e)
          then show ?thesis using r \<open>client_keys h = Some ks\<close> ks i ip h1
            by (simp add: CreateClientConfig_def generateClientKeys_def getServerInfo_def)
        next
          case None
          have a: "session_ok h (add_client_cmd clientName pub ip)"
            using None h1 add_ok_iff [of h clientName pub ip] by simp
          have h1f: "session_ok h1 = session_ok h" "restart_ok h1 = restart_ok h"
            using add_keeps_flags [of h clientName pub ip] h1 by simp_all
          obtain er h2 where h2: "restartWireguard h1 = (er, h2)"
            by (cases "restartWireguard h1")
          show ?thesis
          proof (cases er)
            case (Some e)
            then show ?thesis using r \<open>client_keys h = Some ks\<close> ks i ip h1 None h2
              by (simp add: CreateClientConfig_def generateClientKeys_def getServerInfo_def)
          next
            case rn: None
            have "session_ok h Restart_wireguard \<and> restart_ok h"
              using rn h2 restart_ok_iff [of h1] h1f by simp
            then have "remote_stages_ok h clientName"
              using r \<open>client_keys h = Some ks\<close> ks i ip a
              by (simp add: remote_stages_ok_def)
            then have "\<not> write_ok loc" using assms by simp
            then show ?thesis using r \<open>client_keys h = Some ks\<close> ks i ip h1 None h2 rn
              by (simp add: CreateClientConfig_def generateClientKeys_def getServerInfo_def
                  createLocalClientConfig_def Let_def)
          qed
        qed
      qed
    qed
  qed
qed


lemma CreateClientConfig_Inr:
  assumes "fst (CreateClientConfig dir h loc n) = Inr p"
  shows "remote_stages_ok h n \<and> write_ok loc \<and> p = config_path dir n
         \<and> artifacts (snd (snd (CreateClientConfig dir h loc n))) p \<noteq> None"
proof -
  have ok: "remote_stages_ok h n \<and> write_ok loc"
  proof (rule ccontr)
    assume "\<not> (remote_stages_ok h n \<and> write_ok loc)"
    from CreateClientConfig_fails [OF this, of dir]
    obtain e where "fst (CreateClientConfig dir h loc n) = Inl e"
      by (metis fst_conv)
    with assms show False by simp
  qed
  then have "fst (CreateClientConfig dir h loc n) = Inr (config_path dir n)"
    and "artifacts (snd (snd (CreateClientConfig dir h loc n))) (config_path dir n) \<noteq> None"
    by (simp_all add: CreateClientConfig_ok)
  with assms ok show ?thesis by simp
qed

lemma AddSubscription_local: "local_files (snd (AddSubscription sh sub)) = local_files sh"
  by (simp add: AddSubscription_def Let_def)

lemma AddSubscription_rows:
  "rows (snd (AddSubscription sh sub)) = rows sh
   \<or> rows (snd (AddSubscription sh sub)) = rows sh @ [sub\<lparr>ID := next_id sh\<rparr>]"
  by (simp add: AddSubscription_def Let_def)

lemma handleSuccessfulPayment_rows:
  assumes "rows (snd (handleSuccessfulPayment now userID payload sh)) \<noteq> rows sh"
  shows "\<exists>row. rows (snd (handleSuccessfulPayment now userID payload sh)) = rows sh @ [row]
           \<and> Status row = ''active''
           \<and> artifacts (local_files (snd (handleSuccessfulPayment now userID payload sh)))
                (ConfigFilePath row) \<noteq> None"
proof -
  let ?parts = "split_on (CHR '':'') payload"
  from assms obtain planID plan srv u where
    p: "length ?parts = 2" "?parts ! 0 = ''plan''" "Atoi (?parts ! 1) = Some planID"
    and pl: "plan_by_id sh planID = Some plan" and q: "servers_query_ok sh"
    and sv: "find (\<lambda>srv. IsActive srv \<and> CurrentClients srv < MaxClients srv) (server_rows sh) = Some srv"
    and us: "user_by_telegram sh userID = Some u"
    unfolding handleSuccessfulPayment_def Let_def
    by (auto split: if_splits option.splits)
  let ?sid = "server_ID srv"
  let ?name = "''user_'' @ itoa (user_ID u)"
  let ?prep = "setup_server sh (hosts sh ?sid)"
  let ?ccc = "CreateClientConfig (config_dir sh) (snd ?prep) (local_files sh) ?name"
  from assms p pl q sv us have su: "fst ?prep = None"
    unfolding handleSuccessfulPayment_def Let_def case_prod_beta
    by (auto split: option.splits)
  from assms p pl q sv us su obtain path where cc: "fst ?ccc = Inr path"
    unfolding handleSuccessfulPayment_def Let_def case_prod_beta
    by (cases "fst ?ccc") auto
  let ?sh2 = "sh\<lparr>hosts := (hosts sh)(?sid := fst (snd ?ccc)), local_files := snd (snd ?ccc)\<rparr>"
  let ?sub = "\<lparr>ID = 0, UserID = user_ID u, ServerID = ?sid, PlanID = planID,
               StartDate = now, EndDate = now + Duration plan * day_ns,
               Status = ''active'', ConfigFilePath = path,
               DataUsage = 0, LastConnectionAt = None\<rparr>"
  have res: "snd (handleSuccessfulPayment now userID payload sh) = snd (AddSubscription ?sh2 ?sub)"
    using p pl q sv us su cc
    unfolding handleSuccessfulPayment_def Let_def case_prod_beta
    by (auto split: option.splits)
  have art: "artifacts (snd (snd ?ccc)) path \<noteq> None"
    using CreateClientConfig_Inr [OF cc] by blast
  have "rows (snd (AddSubscription ?sh2 ?sub)) = rows sh @ [?sub\<lparr>ID := next_id ?sh2\<rparr>]"
    using AddSubscription_rows [of ?sh2 ?sub] assms res by auto
  moreover have "local_files (snd (AddSubscription ?sh2 ?sub)) = snd (snd ?ccc)"
    by (simp add: AddSubscription_local)
  ultimately show ?thesis
    using res art by simp
qed

lemma handleSuccessfulPayment_ConfigError:
  "fst (handleSuccessfulPayment now userID payload sh) = ConfigError e \<Longrightarrow>
   rows (snd (handleSuccessfulPayment now userID payload sh)) = rows sh"
  unfolding handleSuccessfulPayment_def Let_def case_prod_beta
  by (auto split: if_splits option.splits sum.splits)

text \<open>
  Claim C8. \<^verbatim>\<open>CreateClientConfig\<close> writes the local artifact only after all its remote stages
  succeeded: when a remote stage fails it returns an error and the local files are as
  before; whenever it returns an error the local files are as before; when it returns a
  path, all remote stages succeeded and the artifact is stored at that path; and when all
  stages and the local write succeed it does return the path. In the purchase flow a
  failed provisioning adds no subscription row, and a row is added only with the artifact
  of its configuration path in the local files.
\<close>

theorem artifact_only_after_remote_stages:
  "(\<not> remote_stages_ok h clientName \<longrightarrow>
      (\<exists>e. fst (CreateClientConfig dir h loc clientName) = Inl e)
      \<and> snd (snd (CreateClientConfig dir h loc clientName)) = loc)
   \<and> (\<forall>e. fst (CreateClientConfig dir h loc clientName) = Inl e \<longrightarrow>
          snd (snd (CreateClientConfig dir h loc clientName)) = loc)
   \<and> (\<forall>p. fst (CreateClientConfig dir h loc clientName) = Inr p \<longrightarrow>
          remote_stages_ok h clientName \<and> write_ok loc \<and> p = config_path dir clientName
          \<and> artifacts (snd (snd (CreateClientConfig dir h loc clientName))) p \<noteq> None)
   \<and> (remote_stages_ok h clientName \<and> write_ok loc \<longrightarrow>
          fst (CreateClientConfig dir h loc clientName) = Inr (config_path dir clientName))
   \<and> (\<forall>e. fst (handleSuccessfulPayment now userID payload sh) = ConfigError e \<longrightarrow>
          rows (snd (handleSuccessfulPayment now userID payload sh)) = rows sh)
   \<and> (rows (snd (handleSuccessfulPayment now userID payload sh)) \<noteq> rows sh \<longrightarrow>
          (\<exists>row. rows (snd (handleSuccessfulPayment now userID payload sh)) = rows sh @ [row]
             \<and> Status row = ''active''
             \<and> artifacts (local_files (snd (handleSuccessfulPayment now userID payload sh)))
                  (ConfigFilePath row) \<noteq> None))"
proof -
  let ?ccc = "CreateClientConfig dir h loc clientName"
  have fails: "(\<exists>e. fst ?ccc = Inl e) \<and> snd (snd ?ccc) = loc"
    if "\<not> (remote_stages_ok h clientName \<and> write_ok loc)"
  proof -
    from CreateClientConfig_fails [OF that, of dir]
    obtain e where "?ccc = (Inl e, fst (snd ?ccc), loc)" by blast
    then have "fst ?ccc = Inl e" and "snd (snd ?ccc) = loc"
      by (metis fst_conv, metis snd_conv)
    then show ?thesis by blast
  qed
  have a: "\<not> remote_stages_ok h clientName \<longrightarrow> (\<exists>e. fst ?ccc = Inl e) \<and> snd (snd ?ccc) = loc"
    using fails by blast
  have b: "\<forall>e. fst ?ccc = Inl e \<longrightarrow> snd (snd ?ccc) = loc"
  proof (intro allI impI)
    fix e assume e: "fst ?ccc = Inl e"
    have "\<not> (remote_stages_ok h clientName \<and> write_ok loc)"
      using e CreateClientConfig_ok(1) [of h clientName loc dir] by auto
    then show "snd (snd ?ccc) = loc" using fails by blast
  qed
  have c: "\<forall>p. fst ?ccc = Inr p \<longrightarrow>
          remote_stages_ok h clientName \<and> write_ok loc \<and> p = config_path dir clientName
          \<and> artifacts (snd (snd ?ccc)) p \<noteq> None"
    using CreateClientConfig_Inr [of dir h loc clientName] by blast
  have d: "remote_stages_ok h clientName \<and> write_ok loc \<longrightarrow> fst ?ccc = Inr (config_path dir clientName)"
    using CreateClientConfig_ok(1) [of h clientName loc dir] by blast
  have e: "\<forall>e. fst (handleSuccessfulPayment now userID payload sh) = ConfigError e \<longrightarrow>
          rows (snd (handleSuccessfulPayment now userID payload sh)) = rows sh"
    using handleSuccessfulPayment_ConfigError [of now userID payload sh] by blast
  have f: "rows (snd (handleSuccessfulPayment now userID payload sh)) \<noteq> rows sh \<longrightarrow>
          (\<exists>row. rows (snd (handleSuccessfulPayment now userID payload sh)) = rows sh @ [row]
             \<and> Status row = ''active''
             \<and> artifacts (local_files (snd (handleSuccessfulPayment now userID payload sh)))
                  (ConfigFilePath row) \<noteq> None)"
    using handleSuccessfulPayment_rows [of now userID payload sh] by blast
  from a b c d e f show ?thesis by (intro conjI)
qed

theorem artifact_only_after_remote_stages_witness:
  "remote_stages_ok (host_with (Some (unlines interface_lines))) ''user_7''
   \<and> write_ok local_empty
   \<and> fst (CreateClientConfig ''configs'' (host_with (Some (unlines interface_lines)))
            local_empty ''user_7'') = Inr ''configs/user_7.conf''
   \<and> artifacts (snd (snd (CreateClientConfig ''configs''
                 (host_with (Some (unlines interface_lines))) local_empty ''user_7'')))
        ''configs/user_7.conf'' \<noteq> None
   \<and> \<not> remote_stages_ok host_down ''user_7''
   \<and> fst (CreateClientConfig ''configs'' host_down local_empty ''user_7'') = Inl ConnectFailed
   \<and> snd (snd (CreateClientConfig ''configs'' host_down local_empty ''user_7'')) = local_empty
   \<and> fst (handleSuccessfulPayment 1000 501 ''plan:1'' shop_host_down) = ConfigError ConnectFailed
   \<and> rows (snd (handleSuccessfulPayment 1000 501 ''plan:1'' shop_host_down)) = rows shop_host_down
   \<and> rows (snd (handleSuccessfulPayment 1000 501 ''plan:1'' shop_example)) \<noteq> rows shop_example
   \<and> (\<exists>row. rows (snd (handleSuccessfulPayment 1000 501 ''plan:1'' shop_example))
               = rows shop_example @ [row]
         \<and> Status row = ''active''
         \<and> artifacts (local_files (snd (handleSuccessfulPayment 1000 501 ''plan:1'' shop_example)))
              (ConfigFilePath row) \<noteq> None)"
proof -
  have ok: "remote_stages_ok (host_with (Some (unlines interface_lines))) ''user_7''"
    by code_simp
  have w: "write_ok local_empty"
    by (simp add: local_empty_def)
  have p: "config_path ''configs'' ''user_7'' = ''configs/user_7.conf''"
    by (simp add: config_path_def)
  have down: "\<not> remote_stages_ok host_down ''user_7''"
    by (simp add: remote_stages_ok_def host_down_def)
  have ce: "fst (CreateClientConfig ''configs'' host_down local_empty ''user_7'') = Inl ConnectFailed"
    by (simp add: CreateClientConfig_def host_down_def)
  have se: "fst (handleSuccessfulPayment 1000 501 ''plan:1'' shop_host_down) = ConfigError ConnectFailed"
    by code_simp
  have r: "rows (snd (handleSuccessfulPayment 1000 501 ''plan:1'' shop_example)) \<noteq> rows shop_example"
    by code_simp
  let ?hx = "host_with (Some (unlines interface_lines))"
  note t1 = artifact_only_after_remote_stages
      [of ?hx "''user_7''" "''configs''" local_empty 1000 501 "''plan:1''" shop_example]
  note t2 = artifact_only_after_remote_stages
      [of host_down "''user_7''" "''configs''" local_empty 1000 501 "''plan:1''" shop_host_down]
  have i1: "fst (CreateClientConfig ''configs'' ?hx local_empty ''user_7'') = Inr ''configs/user_7.conf''"
    using t1 [THEN conjunct2, THEN conjunct2, THEN conjunct2, THEN conjunct1, THEN mp,
        OF conjI [OF ok w]]
    by (simp only: p)
  have i2: "artifacts (snd (snd (CreateClientConfig ''configs'' ?hx local_empty ''user_7'')))
        ''configs/user_7.conf'' \<noteq> None"
    using t1 [THEN conjunct2, THEN conjunct2, THEN conjunct1, THEN spec, THEN mp, OF i1]
    by (elim conjE)
  have i3: "snd (snd (CreateClientConfig ''configs'' host_down local_empty ''user_7'')) = local_empty"
    using t2 [THEN conjunct1, THEN mp, OF down] by (elim conjE)
  have i4: "rows (snd (handleSuccessfulPayment 1000 501 ''plan:1'' shop_host_down)) = rows shop_host_down"
    by (rule t2 [THEN conjunct2, THEN conjunct2, THEN conjunct2, THEN conjunct2, THEN conjunct1,
        THEN spec, THEN mp, OF se])
  note i5 = t1 [THEN conjunct2, THEN conjunct2, THEN conjunct2, THEN conjunct2, THEN conjunct2,
        THEN mp, OF r]
  show ?thesis
    by (intro conjI ok w i1 i2 down ce i3 se i4 r i5)
qed

section \<open>The sweep\<close>

text \<open>Every operation of the sweep leads to a later world of the same run.\<close>

lemma grows_refl: "grows w w"
  by (simp add: grows_def same_oracles_def)

lemma grows_trans:
  assumes "grows a b" "grows b c"
  shows "grows a c"
proof -
  from assms obtain cs ds where "calls b = calls a @ cs" "calls c = calls b @ ds"
    unfolding grows_def by blast
  then have "calls c = calls a @ (cs @ ds)" by simp
  then have "\<exists>es. calls c = calls a @ es" ..
  moreover have "same_oracles a c"
    using assms unfolding grows_def same_oracles_def by simp
  moreover have "\<forall>i. expired_in i a \<longrightarrow> expired_in i c"
    using assms unfolding grows_def by blast
  ultimately show ?thesis unfolding grows_def by blast
qed

lemma grows_calls_mono: "grows w w' \<Longrightarrow> c \<in> set (calls w) \<Longrightarrow> c \<in> set (calls w')"
  unfolding grows_def by (elim conjE exE) simp

lemma grows_same_table:
  "same_oracles w w' \<Longrightarrow> table w' = table w \<Longrightarrow> calls w' = calls w @ cs \<Longrightarrow> grows w w'"
  by (simp add: grows_def expired_in_def)

lemma send_effect:
  "same_oracles w (snd (send w chat m))"
  "table (snd (send w chat m)) = table w"
  "calls (snd (send w chat m)) = calls w @ [Send chat m]"
  by (simp_all add: send_def same_oracles_def)

lemma send_grows: "grows w (snd (send w chat m))"
  by (rule grows_same_table) (rule send_effect)+

lemma notifyUser_grows: "grows w (snd (notifyUser w sub))"
  by (simp add: notifyUser_def grows_refl send_grows split: option.splits)

lemma notifyUserAboutExpiration_grows: "grows w (snd (notifyUserAboutExpiration w sub d))"
  by (simp add: notifyUserAboutExpiration_def grows_refl send_grows split: option.splits)

lemma revokeVPNConfig_grows: "grows w (snd (revokeVPNConfig w sub))"
proof (cases "server_by_id w (ServerID sub)")
  case None
  then show ?thesis by (simp add: revokeVPNConfig_def grows_refl)
next
  case (Some srv)
  let ?w' = "w\<lparr>calls := calls w @ [Revoke_config (server_ID srv) (ConfigFilePath sub)]\<rparr>"
  have "grows w ?w'"
    by (rule grows_same_table [where cs = "[Revoke_config (server_ID srv) (ConfigFilePath sub)]"])
       (simp_all add: same_oracles_def)
  then show ?thesis using Some by (simp add: revokeVPNConfig_def)
qed

lemma revokeVPNConfig_result:
  "same_oracles w w' \<Longrightarrow> fst (revokeVPNConfig w' sub) = fst (revokeVPNConfig w sub)"
  by (simp add: revokeVPNConfig_def same_oracles_def split: option.splits)

lemma UpdateSubscription_oracles: "same_oracles w (snd (UpdateSubscription w sub))"
  by (simp add: UpdateSubscription_def same_oracles_def Let_def)

lemma UpdateSubscription_calls:
  "calls (snd (UpdateSubscription w sub)) = calls w @ [Update_subscription sub]"
  by (simp add: UpdateSubscription_def Let_def)

lemma UpdateSubscription_result:
  "fst (UpdateSubscription w sub) = None \<longleftrightarrow> update_ok w (ID sub)"
  by (simp add: UpdateSubscription_def Let_def)

lemma UpdateSubscription_table:
  "table (snd (UpdateSubscription w sub)) =
     (if update_ok w (ID sub)
      then map (\<lambda>r. if ID r = ID sub
                     then r\<lparr>Status := Status sub, DataUsage := DataUsage sub,
                            LastConnectionAt := LastConnectionAt sub\<rparr>
                     else r) (table w)
      else table w)"
  by (simp add: UpdateSubscription_def Let_def)

lemma UpdateSubscription_keeps_expired:
  assumes "Status sub = ''expired''" "expired_in i w"
  shows "expired_in i (snd (UpdateSubscription w sub))"
proof (cases "update_ok w (ID sub)")
  case False
  then show ?thesis using assms(2) by (simp add: expired_in_def UpdateSubscription_table)
next
  case True
  have "list_all (\<lambda>r. ID r = i \<longrightarrow> Status r = ''expired'') rs \<Longrightarrow>
      list_all (\<lambda>r. ID r = i \<longrightarrow> Status r = ''expired'')
      (map (\<lambda>r. if ID r = ID sub
                 then r\<lparr>Status := Status sub, DataUsage := DataUsage sub,
                        LastConnectionAt := LastConnectionAt sub\<rparr>
                 else r) rs)" for rs
    using assms(1) by (induction rs) simp_all
  from this [of "table w"] assms(2)
  have "list_all (\<lambda>r. ID r = i \<longrightarrow> Status r = ''expired'')
      (map (\<lambda>r. if ID r = ID sub
                 then r\<lparr>Status := Status sub, DataUsage := DataUsage sub,
                        LastConnectionAt := LastConnectionAt sub\<rparr>
                 else r) (table w))"
    by (simp add: expired_in_def)
  then show ?thesis using True by (simp add: expired_in_def UpdateSubscription_table)
qed

lemma UpdateSubscription_commits:
  assumes "update_ok w (ID sub)" "Status sub = ''expired''"
  shows "expired_in (ID sub) (snd (UpdateSubscription w sub))"
proof -
  have "list_all (\<lambda>r. ID r = ID sub \<longrightarrow> Status r = ''expired'')
      (map (\<lambda>r. if ID r = ID sub
                 then r\<lparr>Status := Status sub, DataUsage := DataUsage sub,
                        LastConnectionAt := LastConnectionAt sub\<rparr>
                 else r) rs)" for rs
    using assms(2) by (induction rs) simp_all
  then show ?thesis using assms(1) by (simp add: expired_in_def UpdateSubscription_table)
qed

lemma UpdateSubscription_grows:
  "Status sub = ''expired'' \<Longrightarrow> grows w (snd (UpdateSubscription w sub))"
  unfolding grows_def
  by (simp add: UpdateSubscription_oracles UpdateSubscription_calls UpdateSubscription_keeps_expired)

text \<open>The step for a subscription that ended, by the outcome of the update and of the
  revoke.\<close>

lemma sweep_step_due:
  assumes "EndDate s < now"
  shows "sweep_step now s (w, n, ex) =
     (if \<not> update_ok w (ID s)
      then (snd (UpdateSubscription w (s\<lparr>Status := ''expired''\<rparr>)), n, ex)
      else if fst (revokeVPNConfig w (s\<lparr>Status := ''expired''\<rparr>)) \<noteq> None
      then (snd (revokeVPNConfig (snd (UpdateSubscription w (s\<lparr>Status := ''expired''\<rparr>)))
                  (s\<lparr>Status := ''expired''\<rparr>)), n, ex)
      else (snd (notifyUser
                   (snd (revokeVPNConfig (snd (UpdateSubscription w (s\<lparr>Status := ''expired''\<rparr>)))
                          (s\<lparr>Status := ''expired''\<rparr>)))
                   (s\<lparr>Status := ''expired''\<rparr>)),
            n + 1, ex @ [s\<lparr>Status := ''expired''\<rparr>]))"
proof -
  let ?s' = "s\<lparr>Status := ''expired''\<rparr>"
  let ?w1 = "snd (UpdateSubscription w ?s')"
  have r: "fst (revokeVPNConfig ?w1 ?s') = fst (revokeVPNConfig w ?s')"
    by (rule revokeVPNConfig_result) (rule UpdateSubscription_oracles)
  have u: "fst (UpdateSubscription w ?s') = None \<longleftrightarrow> update_ok w (ID s)"
    by (simp add: UpdateSubscription_result)
  show ?thesis
    using assms(1) r u
    by (cases "UpdateSubscription w ?s'"; cases "revokeVPNConfig ?w1 ?s'")
       (auto simp: sweep_step_def expireSubscription_def Let_def split: option.splits)
qed

lemma sweep_step_not_due:
  assumes "\<not> EndDate s < now"
  shows "sweep_step now s (w, n, ex) =
     (if days_left now (EndDate s) \<le> 3 \<and> 0 \<le> days_left now (EndDate s)
      then (snd (notifyUserAboutExpiration w s (days_left now (EndDate s))), n, ex)
      else (w, n, ex))"
  using assms by (simp add: sweep_step_def Let_def)

lemma sweep_step_grows: "grows (fst st) (fst (sweep_step now s st))"
proof -
  obtain w n ex where st: "st = (w, n, ex)" by (cases st)
  let ?s' = "s\<lparr>Status := ''expired''\<rparr>"
  let ?w1 = "snd (UpdateSubscription w ?s')"
  let ?w2 = "snd (revokeVPNConfig ?w1 ?s')"
  have g1: "grows w ?w1" by (rule UpdateSubscription_grows) simp
  have g2: "grows w ?w2" using g1 revokeVPNConfig_grows by (rule grows_trans)
  have g3: "grows w (snd (notifyUser ?w2 ?s'))" using g2 notifyUser_grows by (rule grows_trans)
  show ?thesis
  proof (cases "EndDate s < now")
    case True
    then show ?thesis using g1 g2 g3 by (simp add: st sweep_step_due)
  next
    case False
    then show ?thesis
      by (simp add: st sweep_step_not_due grows_refl notifyUserAboutExpiration_grows)
  qed
qed

lemma fold_sweep_grows: "grows (fst st) (fst (fold (sweep_step now) subs st))"
proof (induction subs arbitrary: st)
  case Nil
  then show ?case by (simp add: grows_refl)
next
  case (Cons s subs)
  have "grows (fst st) (fst (sweep_step now s st))" by (rule sweep_step_grows)
  moreover have "grows (fst (sweep_step now s st)) (fst (fold (sweep_step now) subs (sweep_step now s st)))"
    by (rule Cons.IH)
  ultimately show ?case by (simp add: grows_trans)
qed

lemma sweep_step_due_call:
  "EndDate s < now \<Longrightarrow>
   Update_subscription (s\<lparr>Status := ''expired''\<rparr>) \<in> set (calls (fst (sweep_step now s st)))"
proof -
  assume due: "EndDate s < now"
  obtain w n ex where st: "st = (w, n, ex)" by (cases st)
  let ?s' = "s\<lparr>Status := ''expired''\<rparr>"
  let ?w1 = "snd (UpdateSubscription w ?s')"
  have c1: "Update_subscription ?s' \<in> set (calls ?w1)"
    by (simp add: UpdateSubscription_calls)
  have "grows ?w1 (snd (revokeVPNConfig ?w1 ?s'))" by (rule revokeVPNConfig_grows)
  then have c2: "Update_subscription ?s' \<in> set (calls (snd (revokeVPNConfig ?w1 ?s')))"
    using c1 by (auto simp: grows_def)
  have "grows (snd (revokeVPNConfig ?w1 ?s')) (snd (notifyUser (snd (revokeVPNConfig ?w1 ?s')) ?s'))"
    by (rule notifyUser_grows)
  then have c3: "Update_subscription ?s' \<in> set (calls (snd (notifyUser (snd (revokeVPNConfig ?w1 ?s')) ?s')))"
    using c2 by (auto simp: grows_def)
  show ?thesis using due c1 c2 c3 by (simp add: st sweep_step_due)
qed

lemma sweep_step_due_commit:
  assumes "EndDate s < now" "update_ok (fst st) (ID s)"
  shows "expired_in (ID s) (fst (sweep_step now s st))"
proof -
  obtain w n ex where st: "st = (w, n, ex)" by (cases st)
  let ?s' = "s\<lparr>Status := ''expired''\<rparr>"
  let ?w1 = "snd (UpdateSubscription w ?s')"
  let ?w2 = "snd (revokeVPNConfig ?w1 ?s')"
  have e1: "expired_in (ID s) ?w1"
    using assms(2) UpdateSubscription_commits [of w ?s'] by (simp add: st)
  have e2: "expired_in (ID s) ?w2"
    using e1 revokeVPNConfig_grows [of ?w1 ?s'] by (simp add: grows_def)
  have e3: "expired_in (ID s) (snd (notifyUser ?w2 ?s'))"
    using e2 notifyUser_grows [of ?w2 ?s'] by (simp add: grows_def)
  show ?thesis using assms e1 e2 e3 by (simp add: st sweep_step_due)
qed

lemma fold_sweep_due_call:
  assumes "s \<in> set subs" "EndDate s < now"
  shows "Update_subscription (s\<lparr>Status := ''expired''\<rparr>)
           \<in> set (calls (fst (fold (sweep_step now) subs st)))"
  using assms(1)
proof (induction subs arbitrary: st)
  case Nil
  then show ?case by simp
next
  case (Cons x subs)
  let ?st' = "sweep_step now x st"
  have g: "grows (fst ?st') (fst (fold (sweep_step now) subs ?st'))"
    by (rule fold_sweep_grows)
  show ?case
  proof (cases "s = x")
    case True
    then have "Update_subscription (s\<lparr>Status := ''expired''\<rparr>) \<in> set (calls (fst ?st'))"
      using assms(2) by (simp add: sweep_step_due_call)
    from grows_calls_mono [OF g this] show ?thesis by simp
  next
    case False
    then have "s \<in> set subs" using Cons.prems by simp
    then show ?thesis using Cons.IH [of ?st'] by simp
  qed
qed

lemma fold_sweep_due_commit:
  assumes "s \<in> set subs" "EndDate s < now" "update_ok (fst st) (ID s)"
  shows "expired_in (ID s) (fst (fold (sweep_step now) subs st))"
  using assms(1,3)
proof (induction subs arbitrary: st)
  case Nil
  then show ?case by simp
next
  case (Cons x subs)
  let ?st' = "sweep_step now x st"
  have g: "grows (fst ?st') (fst (fold (sweep_step now) subs ?st'))"
    by (rule fold_sweep_grows)
  have o: "update_ok (fst ?st') = update_ok (fst st)"
    using sweep_step_grows [of st now x] by (simp add: grows_def same_oracles_def)
  show ?case
  proof (cases "s = x")
    case True
    then have "expired_in (ID s) (fst ?st')"
      using assms(2) Cons.prems(2) by (simp add: sweep_step_due_commit)
    then show ?thesis using g by (simp add: grows_def)
  next
    case False
    then have "s \<in> set subs" using Cons.prems(1) by simp
    then show ?thesis using Cons.IH [of ?st'] Cons.prems(2) o by simp
  qed
qed


lemma fold_send:
  "calls (fold (\<lambda>admin w'. snd (send w' (TelegramID admin) m)) admins w)
     = calls w @ map (\<lambda>admin. Send (TelegramID admin) m) admins"
  "table (fold (\<lambda>admin w'. snd (send w' (TelegramID admin) m)) admins w) = table w"
  "same_oracles w (fold (\<lambda>admin w'. snd (send w' (TelegramID admin) m)) admins w)"
  by (induction admins arbitrary: w) (simp_all add: send_def same_oracles_def)


lemma notifyAdmins_grows: "grows w (snd (notifyAdmins w ex))"
proof (cases "all_admins w")
  case None
  then show ?thesis by (simp add: notifyAdmins_def grows_refl)
next
  case (Some admins)
  show ?thesis
  proof (cases "admins = []")
    case True
    then show ?thesis using Some by (simp add: notifyAdmins_def grows_refl)
  next
    case False
    then show ?thesis using Some
      by (simp add: notifyAdmins_def Let_def) (rule grows_same_table, (rule fold_send)+)
  qed
qed

lemma check_unfold:
  "select_ok w \<Longrightarrow>
   checkExpiredSubscriptions now w =
     (let r = fold (sweep_step now) (filter (\<lambda>s. Status s = ''active'') (table w)) (w, 0, [])
      in if 0 < fst (snd r) then snd (notifyAdmins (fst r) (snd (snd r))) else fst r)"
  by (simp add: checkExpiredSubscriptions_def getActiveSubscriptions_def Let_def case_prod_beta)

lemma check_grows_from_fold:
  "select_ok w \<Longrightarrow>
   grows (fst (fold (sweep_step now) (filter (\<lambda>s. Status s = ''active'') (table w)) (w, 0, [])))
         (checkExpiredSubscriptions now w)"
  by (simp add: check_unfold Let_def grows_refl notifyAdmins_grows)

lemma check_due_call:
  assumes "select_ok w" "s \<in> set (table w)" "Status s = ''active''" "EndDate s < now"
  shows "Update_subscription (s\<lparr>Status := ''expired''\<rparr>)
           \<in> set (calls (checkExpiredSubscriptions now w))"
proof -
  have "s \<in> set (filter (\<lambda>s. Status s = ''active'') (table w))"
    using assms(2,3) by simp
  from fold_sweep_due_call [OF this assms(4), of "(w, 0, [])"]
    check_grows_from_fold [OF assms(1), of now]
  show ?thesis by (rule grows_calls_mono [rotated])
qed

lemma check_due_commit:
  assumes "select_ok w" "s \<in> set (table w)" "Status s = ''active''" "EndDate s < now"
    and "update_ok w (ID s)"
  shows "expired_in (ID s) (checkExpiredSubscriptions now w)"
proof -
  have "s \<in> set (filter (\<lambda>s. Status s = ''active'') (table w))"
    using assms(2,3) by simp
  from fold_sweep_due_commit [OF this assms(4), of "(w, 0, [])"] assms(5)
  have "expired_in (ID s)
          (fst (fold (sweep_step now) (filter (\<lambda>s. Status s = ''active'') (table w)) (w, 0, [])))"
    by simp
  with check_grows_from_fold [OF assms(1), of now] show ?thesis
    by (simp add: grows_def)
qed



































text \<open>
  Claim C9. When the subscription ended, its update succeeded and its remote revoke fails:
  the rows of its id are expired already when the revoke is attempted; the step returns
  with the counters of the loop unchanged and the loop goes on with the remaining
  subscriptions; the rows are still expired after the sweep; and every active subscription
  of the table that ended has its update called during the sweep.
\<close>

theorem revoke_failure_keeps_expiry:
  "select_ok w \<and> s \<in> set (table w) \<and> Status s = ''active'' \<and> EndDate s < now
     \<and> update_ok w (ID s) \<and> fst (revokeVPNConfig w (s\<lparr>Status := ''expired''\<rparr>)) \<noteq> None \<longrightarrow>
   expired_in (ID s) (snd (UpdateSubscription w (s\<lparr>Status := ''expired''\<rparr>)))
   \<and> sweep_step now s (w, n, ex) =
       (snd (revokeVPNConfig (snd (UpdateSubscription w (s\<lparr>Status := ''expired''\<rparr>)))
              (s\<lparr>Status := ''expired''\<rparr>)), n, ex)
   \<and> fold (sweep_step now) (s # rest) (w, n, ex) =
       fold (sweep_step now) rest
         (snd (revokeVPNConfig (snd (UpdateSubscription w (s\<lparr>Status := ''expired''\<rparr>)))
                (s\<lparr>Status := ''expired''\<rparr>)), n, ex)
   \<and> expired_in (ID s) (checkExpiredSubscriptions now w)
   \<and> (\<forall>s' \<in> set (table w). Status s' = ''active'' \<and> EndDate s' < now \<longrightarrow>
         Update_subscription (s'\<lparr>Status := ''expired''\<rparr>)
           \<in> set (calls (checkExpiredSubscriptions now w)))"
proof (intro impI)
  assume a: "select_ok w \<and> s \<in> set (table w) \<and> Status s = ''active'' \<and> EndDate s < now
     \<and> update_ok w (ID s) \<and> fst (revokeVPNConfig w (s\<lparr>Status := ''expired''\<rparr>)) \<noteq> None"
  let ?s' = "s\<lparr>Status := ''expired''\<rparr>"
  have c1: "expired_in (ID s) (snd (UpdateSubscription w ?s'))"
    using a UpdateSubscription_commits [of w ?s'] by simp
  have c2: "sweep_step now s (w, n, ex) =
       (snd (revokeVPNConfig (snd (UpdateSubscription w ?s')) ?s'), n, ex)"
    using a by (simp add: sweep_step_due)
  have c3: "fold (sweep_step now) (s # rest) (w, n, ex) =
       fold (sweep_step now) rest
         (snd (revokeVPNConfig (snd (UpdateSubscription w ?s')) ?s'), n, ex)"
    by (simp add: c2)
  have c4: "expired_in (ID s) (checkExpiredSubscriptions now w)"
    using a by (simp add: check_due_commit)
  have c5: "\<forall>s' \<in> set (table w). Status s' = ''active'' \<and> EndDate s' < now \<longrightarrow>
         Update_subscription (s'\<lparr>Status := ''expired''\<rparr>)
           \<in> set (calls (checkExpiredSubscriptions now w))"
    using a by (simp add: check_due_call)
  from c1 c2 c3 c4 c5 show
   "expired_in (ID s) (snd (UpdateSubscription w ?s'))
   \<and> sweep_step now s (w, n, ex) =
       (snd (revokeVPNConfig (snd (UpdateSubscription w ?s')) ?s'), n, ex)
   \<and> fold (sweep_step now) (s # rest) (w, n, ex) =
       fold (sweep_step now) rest
         (snd (revokeVPNConfig (snd (UpdateSubscription w ?s')) ?s'), n, ex)
   \<and> expired_in (ID s) (checkExpiredSubscriptions now w)
   \<and> (\<forall>s' \<in> set (table w). Status s' = ''active'' \<and> EndDate s' < now \<longrightarrow>
         Update_subscription (s'\<lparr>Status := ''expired''\<rparr>)
           \<in> set (calls (checkExpiredSubscriptions now w)))"
    by (intro conjI)
qed


theorem revoke_failure_keeps_expiry_witness:
  "select_ok (world_with [sub_1, sub_2])
   \<and> sub_1 \<in> set (table (world_with [sub_1, sub_2]))
   \<and> Status sub_1 = ''active''
   \<and> EndDate sub_1 < 1001
   \<and> update_ok (world_with [sub_1, sub_2]) (ID sub_1)
   \<and> fst (revokeVPNConfig (world_with [sub_1, sub_2]) (sub_1\<lparr>Status := ''expired''\<rparr>))
       = Some CommandFailed
   \<and> expired_in (ID sub_1) (checkExpiredSubscriptions 1001 (world_with [sub_1, sub_2]))
   \<and> Update_subscription (sub_2\<lparr>Status := ''expired''\<rparr>)
       \<in> set (calls (checkExpiredSubscriptions 1001 (world_with [sub_1, sub_2])))
   \<and> map Status (table (checkExpiredSubscriptions 1001 (world_with [sub_1, sub_2])))
       = [''expired'', ''expired'']"
proof -
  let ?w = "world_with [sub_1, sub_2]"
  have h1: "select_ok ?w" by (simp add: world_with_def)
  have h2: "sub_1 \<in> set (table ?w)" by (simp add: world_with_def)
  have h3: "Status sub_1 = ''active''" by (simp add: sub_1_def)
  have h4: "EndDate sub_1 < 1001" by (simp add: sub_1_def)
  have h5: "update_ok ?w (ID sub_1)" by (simp add: world_with_def)
  have h6: "fst (revokeVPNConfig ?w (sub_1\<lparr>Status := ''expired''\<rparr>)) = Some CommandFailed"
    by (simp add: revokeVPNConfig_def world_with_def sub_1_def)
  have h6': "fst (revokeVPNConfig ?w (sub_1\<lparr>Status := ''expired''\<rparr>)) \<noteq> None"
    by (simp add: h6)
  have g2: "sub_2 \<in> set (table ?w)" by (simp add: world_with_def)
  have g3: "Status sub_2 = ''active'' \<and> EndDate sub_2 < 1001" by (simp add: sub_2_def)
  have ev: "map Status (table (checkExpiredSubscriptions 1001 ?w)) = [''expired'', ''expired'']"
    by code_simp
  note c = revoke_failure_keeps_expiry [of ?w sub_1 1001 0 "[]" "[sub_2]", THEN mp,
      OF conjI [OF h1 conjI [OF h2 conjI [OF h3 conjI [OF h4 conjI [OF h5 h6']]]]]]
  note c4 = c [THEN conjunct2, THEN conjunct2, THEN conjunct2, THEN conjunct1]
  note c5 = c [THEN conjunct2, THEN conjunct2, THEN conjunct2, THEN conjunct2,
      THEN bspec, OF g2, THEN mp, OF g3]
  show ?thesis
    by (intro conjI h1 h2 h3 h4 h5 h6 c4 c5 ev)
qed

end
